theory Spec2Isabelle
  imports Complex_Main "HOL-Library.Word" "HOL-Library.Char_ord" "HOL-Library.List_Lexorder"
begin

unbundle bit_operations_syntax

chapter \<open>LLM LoreSmith: the dataset generation pipeline\<close>

text \<open>
  A shallow embedding of \<^verbatim>\<open>src/dataset_generation/dataset_pipeline.py\<close>: the text
  extractor, the content filter, the dataset analyzer and the dataset structurer, each
  function under the name it has in the source (without the leading underscore of the
  private methods). All definitions come first; the lemmas and the theorems about them
  follow in the second chapter.
\<close>

section \<open>Python values\<close>

subsection \<open>Strings\<close>

text \<open>
  A Python \<^verbatim>\<open>str\<close> is a sequence of code points and \<^verbatim>\<open>len\<close> counts them. The
  model is \<^typ>\<open>string\<close> with one \<^typ>\<open>char\<close> per code point, which covers the code
  points 0 to 255 (ASCII and Latin-1). The character classes below are those of Python 3
  on that range: \<open>isspace\<close> is \<^verbatim>\<open>str.isspace\<close> and the class \<^verbatim>\<open>\s\<close>, \<open>isdigit\<close>
  the class \<^verbatim>\<open>\d\<close>, \<open>isword\<close> the class \<^verbatim>\<open>\w\<close>.
\<close>

abbreviation newline :: char where
  "newline \<equiv> CHR 0x0A"

definition len :: "'a list \<Rightarrow> int" where
  "len xs = int (length xs)"

definition isspace :: "char \<Rightarrow> bool" where
  "isspace c =
     (let n = of_char c :: nat
      in (9 \<le> n \<and> n \<le> 13) \<or> (28 \<le> n \<and> n \<le> 32) \<or> n = 133 \<or> n = 160)"

definition isdigit :: "char \<Rightarrow> bool" where
  "isdigit c = (let n = of_char c :: nat in 48 \<le> n \<and> n \<le> 57)"

definition isword :: "char \<Rightarrow> bool" where
  "isword c =
     (let n = of_char c :: nat
      in (48 \<le> n \<and> n \<le> 57) \<or> (65 \<le> n \<and> n \<le> 90) \<or> n = 95 \<or> (97 \<le> n \<and> n \<le> 122)
         \<or> n = 170 \<or> n = 178 \<or> n = 179 \<or> n = 181 \<or> n = 185 \<or> n = 186
         \<or> (188 \<le> n \<and> n \<le> 190) \<or> (192 \<le> n \<and> n \<le> 214) \<or> (216 \<le> n \<and> n \<le> 246)
         \<or> 248 \<le> n)"

definition lower_char :: "char \<Rightarrow> char" where
  "lower_char c =
     (let n = of_char c :: nat
      in if (65 \<le> n \<and> n \<le> 90) \<or> (192 \<le> n \<and> n \<le> 214) \<or> (216 \<le> n \<and> n \<le> 222)
         then char_of (n + 32) else c)"

definition lower :: "string \<Rightarrow> string" where
  \<comment> \<open>\<^verbatim>\<open>s.lower()\<close>\<close>
  "lower s = map lower_char s"

definition strip :: "string \<Rightarrow> string" where
  \<comment> \<open>\<^verbatim>\<open>s.strip()\<close>\<close>
  "strip s = rev (dropWhile isspace (rev (dropWhile isspace s)))"

fun split_ws :: "string \<Rightarrow> string \<Rightarrow> string list" where
  "split_ws cur [] = (if cur = [] then [] else [rev cur])"
| "split_ws cur (c # cs) =
     (if isspace c then (if cur = [] then split_ws [] cs else rev cur # split_ws [] cs)
      else split_ws (c # cur) cs)"

definition split :: "string \<Rightarrow> string list" where
  \<comment> \<open>\<^verbatim>\<open>s.split()\<close>: the maximal runs of characters that are not white space\<close>
  "split s = split_ws [] s"

fun join :: "string \<Rightarrow> string list \<Rightarrow> string" where
  \<comment> \<open>\<^verbatim>\<open>sep.join(xs)\<close>\<close>
  "join sep [] = []"
| "join sep [x] = x"
| "join sep (x # y # ys) = x @ sep @ join sep (y # ys)"

fun str_nat :: "nat \<Rightarrow> string" where
  "str_nat n =
     (if n < 10 then [''0123456789'' ! n]
      else str_nat (n div 10) @ [''0123456789'' ! (n mod 10)])"

declare str_nat.simps [simp del]

definition str_int :: "int \<Rightarrow> string" where
  \<comment> \<open>\<^verbatim>\<open>str(i)\<close>, also what an f-string writes for an int\<close>
  "str_int i = (if i < 0 then CHR ''-'' # str_nat (nat (- i)) else str_nat (nat i))"

text \<open>
  A dict is an association list in insertion order; \<open>dict_get\<close> is
  \<^verbatim>\<open>d.get(key, default)\<close>.
\<close>

type_synonym 'v dict = "(string \<times> 'v) list"

definition dict_get :: "'v dict \<Rightarrow> string \<Rightarrow> 'v \<Rightarrow> 'v" where
  "dict_get d k dflt = (case map_of d k of None \<Rightarrow> dflt | Some v \<Rightarrow> v)"

subsection \<open>Numbers\<close>

text \<open>
  A Python number is modelled by its exact value, a rational. An \<^verbatim>\<open>int\<close> is exact. A
  \<^verbatim>\<open>float\<close> is an IEEE 754 binary64: each arithmetic operation returns the exact result
  rounded to the nearest value with a 53-bit significand, ties to the even significand.
  \<open>round_binary64\<close> is that rounding. The exponent range of binary64 is not modelled
  (no overflow, no subnormals): the quantities below lie between \<open>1 / n\<close> and
  \<open>n\<close> for lengths \<open>n\<close> of objects in memory, far inside the normal range.
\<close>

definition round_half_even :: "rat \<Rightarrow> int" where
  "round_half_even x =
     (let f = \<lfloor>x\<rfloor>; d = x - of_int f
      in if d < 1 / 2 then f
         else if 1 / 2 < d then f + 1
         else if even f then f else f + 1)"

function ilog2 :: "rat \<Rightarrow> int" where
  \<comment> \<open>the binary exponent of a positive rational: \<open>2 powi ilog2 x \<le> x < 2 powi (ilog2 x + 1)\<close>\<close>
  "ilog2 x =
     (if x \<le> 0 then 0
      else if x < 1 then ilog2 (2 * x) - 1
      else if 2 \<le> x then ilog2 (x / 2) + 1
      else 0)"
  by pat_completeness auto
termination
proof (relation "measure (\<lambda>x. if x < 1 then 2 * nat \<lceil>1 / x\<rceil> else nat \<lfloor>x\<rfloor>)", goal_cases)
  case 1
  then show ?case by simp
next
  case (2 x)
  then have x: "0 < x" "x < 1" by simp_all
  show ?case
  proof (cases "2 * x < 1")
    case True
    have "1 / x > 2" using x True by (simp add: field_simps)
    then have c2: "\<lceil>1 / x\<rceil> \<ge> 2" by linarith
    have "1 / (2 * x) = (1 / x) / 2" by simp
    also have "\<dots> \<le> of_int \<lceil>1 / x\<rceil> / 2" by (simp add: divide_right_mono)
    also have "\<dots> \<le> of_int (\<lceil>1 / x\<rceil> - 1)" using c2 by simp
    finally have "\<lceil>1 / (2 * x)\<rceil> \<le> \<lceil>1 / x\<rceil> - 1" by (rule ceiling_le)
    then show ?thesis using True x c2 by simp
  next
    case False
    then have "1 \<le> 2 * x" "2 * x < 2" using x by simp_all
    then have f: "\<lfloor>2 * x\<rfloor> = 1" by linarith
    have "1 / x > 1" using x by simp
    then have "\<lceil>1 / x\<rceil> \<ge> 2" by linarith
    then have "2 \<le> nat \<lceil>1 / x\<rceil>" by linarith
    then show ?thesis using False x f by simp
  qed
next
  case (3 x)
  then have x: "2 \<le> x" by simp
  have f2: "2 \<le> \<lfloor>x\<rfloor>" using x by linarith
  have "of_int \<lfloor>x / 2\<rfloor> \<le> x / 2" by (rule of_int_floor_le)
  also have "\<dots> < (of_int \<lfloor>x\<rfloor> + 1) / 2"
  proof -
    have "x < of_int \<lfloor>x\<rfloor> + 1" by linarith
    then show ?thesis by simp
  qed
  also have "\<dots> \<le> of_int \<lfloor>x\<rfloor>" using f2 by simp
  finally have "\<lfloor>x / 2\<rfloor> < \<lfloor>x\<rfloor>" by simp
  then show ?case using x f2 by simp
qed

declare ilog2.simps [simp del]

definition round_binary64 :: "rat \<Rightarrow> rat" where
  "round_binary64 x =
     (if x = 0 then 0
      else let e = ilog2 \<bar>x\<bar> - 52
           in sgn x * of_int (round_half_even (\<bar>x\<bar> / 2 powi e)) * 2 powi e)"

definition truediv :: "int \<Rightarrow> int \<Rightarrow> rat" where
  \<comment> \<open>\<^verbatim>\<open>a / b\<close> on two ints, \<open>b\<close> not zero: the correctly rounded quotient\<close>
  "truediv a b = round_binary64 (of_int a / of_int b)"

definition float_mul :: "rat \<Rightarrow> rat \<Rightarrow> rat" where
  \<comment> \<open>\<^verbatim>\<open>x * y\<close> with a float operand\<close>
  "float_mul x y = round_binary64 (x * y)"

definition float_add :: "rat \<Rightarrow> rat \<Rightarrow> rat" where
  \<comment> \<open>\<^verbatim>\<open>x + y\<close> with a float operand; on two ints the sum is exact\<close>
  "float_add x y = round_binary64 (x + y)"

definition py_min :: "rat \<Rightarrow> rat \<Rightarrow> rat" where
  \<comment> \<open>\<^verbatim>\<open>min(a, b)\<close>: the first argument unless the second is strictly smaller\<close>
  "py_min a b = (if b < a then b else a)"

subsection \<open>Regular expressions\<close>

text \<open>
  The patterns of the source use literals, character sets, the classes \<^verbatim>\<open>\d\<close> and
  \<^verbatim>\<open>\s\<close>, the anchors \<^verbatim>\<open>^\<close>, \<^verbatim>\<open>$\<close> and \<^verbatim>\<open>\b\<close>, grouping and the greedy
  \<^verbatim>\<open>?\<close>, \<^verbatim>\<open>*\<close> and \<^verbatim>\<open>+\<close>. \<open>rmatch r ic pos\<close> lists the positions where a match
  of \<open>r\<close> that starts at \<open>pos\<close> can end, in the order in which the backtracking
  matcher of \<^verbatim>\<open>re\<close> tries them, so the head of the list is the match that \<^verbatim>\<open>re\<close>
  reports. A position is the character before it (\<open>None\<close> at the start of the string)
  and the rest of the string. \<open>ic\<close> is the flag \<^verbatim>\<open>re.IGNORECASE\<close>; the patterns searched
  with it consist of literals only.
\<close>

datatype regex =
    Eps | Chr char | OneOf string | Range char char | Digit | Space
  | Bol | Eol | WordB
  | Seq regex regex | Opt regex | Star regex | Plus regex

definition Str :: "string \<Rightarrow> regex" where
  "Str s = foldr (\<lambda>c r. Seq (Chr c) r) s Eps"

fun seq :: "regex list \<Rightarrow> regex" where
  "seq [] = Eps"
| "seq [r] = r"
| "seq (r # rs) = Seq r (seq rs)"

type_synonym pos = "char option \<times> string"

fun step_char :: "(char \<Rightarrow> bool) \<Rightarrow> pos \<Rightarrow> pos list" where
  "step_char P (p, []) = []"
| "step_char P (p, c # cs) = (if P c then [(Some c, cs)] else [])"

fun at_word_boundary :: "pos \<Rightarrow> bool" where
  "at_word_boundary (p, s) =
     ((case p of None \<Rightarrow> False | Some c \<Rightarrow> isword c)
        \<noteq> (case s of [] \<Rightarrow> False | c # _ \<Rightarrow> isword c))"

text \<open>
  The repetition of a pattern: each round has to consume a character (every starred
  pattern of the source does), so the length of the rest bounds the number of rounds.
\<close>

fun star_iter :: "nat \<Rightarrow> (pos \<Rightarrow> pos list) \<Rightarrow> pos \<Rightarrow> pos list" where
  "star_iter 0 f st = [st]"
| "star_iter (Suc n) f st =
     concat (map (\<lambda>st'. if length (snd st') < length (snd st) then star_iter n f st' else [])
               (f st)) @ [st]"

primrec rmatch :: "regex \<Rightarrow> bool \<Rightarrow> pos \<Rightarrow> pos list" where
  "rmatch Eps ic = (\<lambda>st. [st])"
| "rmatch (Chr c) ic = step_char (\<lambda>x. if ic then lower_char x = lower_char c else x = c)"
| "rmatch (OneOf cs) ic =
     step_char (\<lambda>x. if ic then lower_char x \<in> set (lower cs) else x \<in> set cs)"
| "rmatch (Range a b) ic = step_char (\<lambda>x. a \<le> x \<and> x \<le> b)"
| "rmatch Digit ic = step_char isdigit"
| "rmatch Space ic = step_char isspace"
| "rmatch Bol ic = (\<lambda>st. if fst st = None then [st] else [])"
| "rmatch Eol ic = (\<lambda>st. if snd st = [] \<or> snd st = [newline] then [st] else [])"
| "rmatch WordB ic = (\<lambda>st. if at_word_boundary st then [st] else [])"
| "rmatch (Seq a b) ic = (\<lambda>st. concat (map (rmatch b ic) (rmatch a ic st)))"
| "rmatch (Opt a) ic = (\<lambda>st. rmatch a ic st @ [st])"
| "rmatch (Star a) ic = (\<lambda>st. star_iter (length (snd st)) (rmatch a ic) st)"
| "rmatch (Plus a) ic =
     (\<lambda>st. concat (map (\<lambda>st'. star_iter (length (snd st')) (rmatch a ic) st') (rmatch a ic st)))"

definition re_match :: "regex \<Rightarrow> bool \<Rightarrow> string \<Rightarrow> bool" where
  \<comment> \<open>\<^verbatim>\<open>re.match(r, s)\<close> finds a match: one that starts at the start of \<open>s\<close>\<close>
  "re_match r ic s = (rmatch r ic (None, s) \<noteq> [])"

fun search_from :: "regex \<Rightarrow> bool \<Rightarrow> char option \<Rightarrow> string \<Rightarrow> bool" where
  "search_from r ic p [] = (rmatch r ic (p, []) \<noteq> [])"
| "search_from r ic p (c # cs) = (rmatch r ic (p, c # cs) \<noteq> [] \<or> search_from r ic (Some c) cs)"

definition re_search :: "regex \<Rightarrow> bool \<Rightarrow> string \<Rightarrow> bool" where
  \<comment> \<open>\<^verbatim>\<open>re.search(r, s)\<close> finds a match: one that starts anywhere in \<open>s\<close>\<close>
  "re_search r ic s = search_from r ic None s"

text \<open>
  \<^verbatim>\<open>re.sub\<close> and \<^verbatim>\<open>re.split\<close> go through the string from the left and take, at the
  first position where the pattern matches, the match that \<^verbatim>\<open>re\<close> reports, then go on
  behind it. A match of the patterns in the source is never empty; an empty match is
  passed over here.
\<close>

function re_sub_from :: "regex \<Rightarrow> string \<Rightarrow> char option \<Rightarrow> string \<Rightarrow> string" where
  "re_sub_from r repl p s =
     (case rmatch r False (p, s) of
        (p', s') # _ \<Rightarrow>
          if length s' < length s then repl @ re_sub_from r repl p' s'
          else (case s of [] \<Rightarrow> [] | c # cs \<Rightarrow> c # re_sub_from r repl (Some c) cs)
      | [] \<Rightarrow> (case s of [] \<Rightarrow> [] | c # cs \<Rightarrow> c # re_sub_from r repl (Some c) cs))"
  by pat_completeness auto
termination
  by (relation "measure (\<lambda>(r, repl, p, s). length s)") auto

declare re_sub_from.simps [simp del]

definition re_sub :: "regex \<Rightarrow> string \<Rightarrow> string \<Rightarrow> string" where
  \<comment> \<open>\<^verbatim>\<open>re.sub(r, repl, s)\<close>\<close>
  "re_sub r repl s = re_sub_from r repl None s"

function re_split_from :: "regex \<Rightarrow> char option \<Rightarrow> string \<Rightarrow> string \<Rightarrow> string list" where
  "re_split_from r p s cur =
     (case rmatch r False (p, s) of
        (p', s') # _ \<Rightarrow>
          if length s' < length s then rev cur # re_split_from r p' s' []
          else (case s of [] \<Rightarrow> [rev cur] | c # cs \<Rightarrow> re_split_from r (Some c) cs (c # cur))
      | [] \<Rightarrow> (case s of [] \<Rightarrow> [rev cur] | c # cs \<Rightarrow> re_split_from r (Some c) cs (c # cur)))"
  by pat_completeness auto
termination
  by (relation "measure (\<lambda>(r, p, s, cur). length s)") auto

declare re_split_from.simps [simp del]

definition re_split :: "regex \<Rightarrow> string \<Rightarrow> string list" where
  \<comment> \<open>\<^verbatim>\<open>re.split(r, s)\<close>\<close>
  "re_split r s = re_split_from r None s []"

section \<open>The environment\<close>

text \<open>
  What the pipeline reads from outside the module is a parameter of the model:
  \<^item> \<open>get_document_path\<close> and \<open>get_document_metadata\<close> of the singleton
    \<^verbatim>\<open>document_storage\<close>, which look a document up on disk;
  \<^item> \<open>read_document\<close>, the four private extraction methods of \<^verbatim>\<open>TextExtractor\<close>
    (\<^verbatim>\<open>_extract_from_pdf\<close>, \<^verbatim>\<open>_extract_from_docx\<close>, \<^verbatim>\<open>_extract_from_text\<close>,
    \<^verbatim>\<open>_extract_from_html\<close>), which read a file through PyPDF2, python-docx, the file
    system and BeautifulSoup: the result is the text, or the message of the exception
    raised;
  \<^item> \<open>sent_tokenize\<close> of NLTK, the trained Punkt sentence tokenizer.
\<close>

datatype reader = PdfReader | DocxReader | TextReader | HtmlReader

type_synonym tokenizer = "string \<Rightarrow> string list"

record environment =
  get_document_path :: "string \<Rightarrow> string option"
  get_document_metadata :: "string \<Rightarrow> string dict option"
  read_document :: "reader \<Rightarrow> string \<Rightarrow> string + string"
  sent_tokenize :: tokenizer

text \<open>
  The examples need a concrete tokenizer. \<open>period_tokenize\<close> ends a sentence behind a
  \<^verbatim>\<open>.\<close>, \<^verbatim>\<open>!\<close> or \<^verbatim>\<open>?\<close> that white space follows, and drops that white space; it
  does not end a sentence behind an ellipsis (two or more periods) that a lower-case
  letter follows. This is what Punkt does on the texts of the examples, which have no
  abbreviations, initials or numbers: a word with a final period ends a sentence, an
  ellipsis before a lower-case word does not, and every sentence is a slice of the text.
\<close>

fun period_tokenize_from :: "string \<Rightarrow> string \<Rightarrow> string list" where
  "period_tokenize_from cur [] = (if cur = [] then [] else [rev cur])"
| "period_tokenize_from cur (c # cs) =
     (if cur = [] \<and> isspace c then period_tokenize_from [] cs
      else if c \<in> set ''.!?'' \<and> (case cs of [] \<Rightarrow> False | d # _ \<Rightarrow> isspace d)
              \<and> \<not> (c = CHR ''.'' \<and> (case cur of [] \<Rightarrow> False | b # _ \<Rightarrow> b = CHR ''.'')
                    \<and> (case dropWhile isspace cs of [] \<Rightarrow> False
                         | d # _ \<Rightarrow> CHR ''a'' \<le> d \<and> d \<le> CHR ''z''))
      then rev (c # cur) # period_tokenize_from [] cs
      else period_tokenize_from (c # cur) cs)"

definition period_tokenize :: tokenizer where
  "period_tokenize text = period_tokenize_from [] text"

section \<open>TextExtractor\<close>

text \<open>
  \<^verbatim>\<open>os.path.splitext\<close> of \<^verbatim>\<open>posixpath\<close>: the extension starts at the last dot behind
  the last separator, unless only dots stand between the separator and that dot.
  \<open>rfind\<close> is \<^verbatim>\<open>str.rfind\<close> for a single character, \<open>-1\<close> when it is absent.
\<close>

definition rfind :: "string \<Rightarrow> char \<Rightarrow> int" where
  "rfind p c =
     (if c \<in> set p then int (length p) - 1 - int (length (takeWhile (\<lambda>x. x \<noteq> c) (rev p)))
      else - 1)"

definition splitext :: "string \<Rightarrow> string \<times> string" where
  "splitext p =
     (let sepIndex = rfind p (CHR ''/'');
          dotIndex = rfind p (CHR ''.'')
      in if dotIndex > sepIndex
            \<and> list_ex (\<lambda>c. c \<noteq> CHR ''.'')
                 (take (nat (dotIndex - (sepIndex + 1))) (drop (nat (sepIndex + 1)) p))
         then (take (nat dotIndex) p, drop (nat dotIndex) p)
         else (p, []))"

text \<open>
  The extraction method that the \<^verbatim>\<open>if\<close> chain of \<open>extract_from_document\<close> selects
  for a lower-cased extension, written as a table; \<open>extract_from_document\<close> below
  keeps the chain of the source.
\<close>

definition reader_for :: "string \<Rightarrow> reader option" where
  "reader_for file_ext =
     map_of [(''.pdf'', PdfReader), (''.docx'', DocxReader), (''.txt'', TextReader),
             (''.md'', TextReader), (''.html'', HtmlReader)] file_ext"

text \<open>
  \<open>extract_from_document\<close> returns the triple of the source, and with it the calls of
  the extraction methods it made, so that "no extraction was attempted" can be stated.
  \<open>extract_with\<close> is the rest of the \<^verbatim>\<open>try\<close> block once the method is chosen.
\<close>

type_synonym extraction = "(bool \<times> string \<times> string option) \<times> (reader \<times> string) list"

definition extract_with :: "environment \<Rightarrow> reader \<Rightarrow> string \<Rightarrow> extraction" where
  "extract_with env r doc_path =
     (case read_document env r doc_path of
        Inl e \<Rightarrow> ((False, ''Error extracting text: '' @ e, None), [(r, doc_path)])
      | Inr text \<Rightarrow>
          if text = [] \<or> strip text = [] then
            ((False, ''No text content extracted from document'', None), [(r, doc_path)])
          else ((True, ''Text extracted successfully'', Some text), [(r, doc_path)]))"

definition extract_from_document :: "environment \<Rightarrow> string \<Rightarrow> extraction" where
  "extract_from_document env doc_id =
     (case get_document_path env doc_id of
        None \<Rightarrow> ((False, ''Document with ID '' @ doc_id @ '' not found'', None), [])
      | Some doc_path \<Rightarrow>
          if doc_path = [] then ((False, ''Document with ID '' @ doc_id @ '' not found'', None), [])
          else
            let file_ext = lower (snd (splitext doc_path))
            in if file_ext = ''.pdf'' then extract_with env PdfReader doc_path
               else if file_ext = ''.docx'' then extract_with env DocxReader doc_path
               else if file_ext = ''.txt'' \<or> file_ext = ''.md'' then extract_with env TextReader doc_path
               else if file_ext = ''.html'' then extract_with env HtmlReader doc_path
               else ((False, ''Unsupported file format: '' @ file_ext, None), []))"

section \<open>ContentFilter\<close>

definition min_sentence_length :: int where
  "min_sentence_length = 10"

definition max_sentence_length :: int where
  "max_sentence_length = 1000"

definition normalize_whitespace :: "string \<Rightarrow> string" where
  "normalize_whitespace text =
     (let text = re_sub (Plus Space) '' '' text;
          text = re_sub (Plus (Chr newline)) [newline, newline] text
      in strip text)"

definition noise_patterns :: "regex list" where
  "noise_patterns =
    [seq [Bol, Str ''Page '', Plus Digit, Opt (seq [Str '' of '', Plus Digit]), Eol],
     seq [Bol, Plus Digit, Chr (CHR ''/''), Plus Digit, Eol],
     seq [Bol, OneOf ''Cc'', Str ''hapter '', Plus Digit, Eol],
     seq [Bol, OneOf ''Ss'', Str ''ection '', Plus Digit, Star (seq [Chr (CHR ''.''), Plus Digit]), Eol],
     seq [Bol, OneOf ''Ff'', Str ''igure '', Plus Digit, Star (seq [Chr (CHR ''.''), Plus Digit]),
          Chr (CHR '':'')],
     seq [Bol, OneOf ''Tt'', Str ''able '', Plus Digit, Star (seq [Chr (CHR ''.''), Plus Digit]),
          Chr (CHR '':'')],
     seq [Bol, OneOf ''Cc'', Str ''opyright '', Chr (CHR 0xA9)],
     seq [Bol, Str ''All rights reserved''],
     seq [Bol, Str ''Confidential'']]"

definition is_noise :: "string \<Rightarrow> bool" where
  "is_noise sentence =
     (if re_match (seq [Bol, Plus (Range (CHR ''0'') (CHR ''9'')), Eol]) False (strip sentence)
      then True
      else list_ex (\<lambda>pattern. re_match pattern False (strip sentence)) noise_patterns)"

text \<open>The loop of \<open>filter_content\<close> over the sentences.\<close>

fun filter_sentences :: "string list \<Rightarrow> string list" where
  "filter_sentences [] = []"
| "filter_sentences (sentence # sentences) =
     (let sentence = strip sentence in
      if sentence = [] \<or> len sentence < min_sentence_length then filter_sentences sentences
      else
        let sentence = (if len sentence > max_sentence_length
                        then take (nat max_sentence_length) sentence @ ''...'' else sentence)
        in if is_noise sentence then filter_sentences sentences
           else sentence # filter_sentences sentences)"

text \<open>What the loop does with one sentence: drop it, or keep it in some form.\<close>

definition kept :: "string \<Rightarrow> string option" where
  "kept sentence =
     (let sentence = strip sentence in
      if sentence = [] \<or> len sentence < min_sentence_length then None
      else
        let sentence = (if len sentence > max_sentence_length
                        then take (nat max_sentence_length) sentence @ ''...'' else sentence)
        in if is_noise sentence then None else Some sentence)"

definition filter_content :: "tokenizer \<Rightarrow> string \<Rightarrow> string" where
  "filter_content tokenize text =
     (let text = normalize_whitespace text;
          sentences = tokenize text
      in join '' '' (filter_sentences sentences))"

section \<open>DatasetAnalyzer\<close>

text \<open>
  A sample is a dict with the keys \<^verbatim>\<open>"input"\<close> and \<^verbatim>\<open>"output"\<close>; the analyzer reads
  both with \<^verbatim>\<open>get(key, "")\<close>. The three attributes that \<^verbatim>\<open>__init__\<close> sets are never
  reassigned and are constants here.
\<close>

type_synonym sample = "string dict"

record stats =
  sample_count :: int
  total_chars :: int
  avg_sample_length :: rat
  sufficiency_score :: rat

record analysis =
  is_sufficient :: bool
  message :: string
  stats :: stats

definition min_dataset_size :: int where
  "min_dataset_size = 1000"

definition min_samples :: int where
  "min_samples = 10"

definition optimal_samples :: int where
  "optimal_samples = 100"

definition analyze_dataset :: "sample list \<Rightarrow> analysis" where
  "analyze_dataset samples =
     (if samples = [] then
        \<lparr>is_sufficient = False, message = ''Dataset is empty'',
         stats = \<lparr>sample_count = 0, total_chars = 0, avg_sample_length = 0, sufficiency_score = 0\<rparr>\<rparr>
      else
        let sample_count = len samples;
            total_chars = sum_list (map (\<lambda>sample. len (dict_get sample ''input'' '''')
                                                   + len (dict_get sample ''output'' '''')) samples);
            avg_sample_length = (if sample_count > 0 then truediv total_chars sample_count else 0);
            size_score = py_min 100 (float_mul (truediv total_chars min_dataset_size) 50);
            count_score = py_min 50 (float_mul (truediv sample_count optimal_samples) 50);
            sufficiency_score = float_add size_score count_score;
            is_sufficient = (total_chars \<ge> min_dataset_size \<and> sample_count \<ge> min_samples);
            message =
              (if is_sufficient then
                 (if sufficiency_score \<ge> 80 then ''Dataset is sufficient and of good quality''
                  else ''Dataset is minimally sufficient but could be improved'')
               else
                 (if sample_count < min_samples then
                    ''Insufficient samples (minimum '' @ str_int min_samples @ '' required)''
                  else
                    ''Insufficient content (minimum '' @ str_int min_dataset_size
                      @ '' characters required)''))
        in \<lparr>is_sufficient = is_sufficient, message = message,
            stats = \<lparr>sample_count = sample_count, total_chars = total_chars,
                     avg_sample_length = avg_sample_length,
                     sufficiency_score = sufficiency_score\<rparr>\<rparr>)"

text \<open>
  Lines 226 to 228 as a function of the two statistics they read, \<open>total_chars\<close> and
  \<open>sample_count\<close>, with \<^verbatim>\<open>min\<close> as the mathematical minimum.
\<close>

definition score_of :: "int \<Rightarrow> int \<Rightarrow> rat" where
  "score_of t n =
     float_add (min 100 (float_mul (truediv t 1000) 50)) (min 50 (float_mul (truediv n 100) 50))"

section \<open>DatasetStructurer\<close>

subsection \<open>Samples from a text\<close>

definition paragraph_break :: regex where
  \<comment> \<open>\<^verbatim>\<open>\n\s*\n\<close>\<close>
  "paragraph_break = seq [Chr newline, Star Space, Chr newline]"

definition informative_patterns :: "regex list" where
  "informative_patterns =
    [seq [WordB, Str ''is'', WordB], seq [WordB, Str ''are'', WordB],
     seq [WordB, Str ''was'', WordB], seq [WordB, Str ''were'', WordB],
     seq [WordB, Str ''consist'', Opt (Chr (CHR ''s'')), Str '' of'', WordB],
     seq [WordB, Str ''contain'', Opt (Chr (CHR ''s'')), WordB],
     seq [WordB, Str ''defined as'', WordB], seq [WordB, Str ''refers to'', WordB],
     seq [WordB, Str ''cause'', Opt (Chr (CHR ''s'')), WordB],
     seq [WordB, Str ''result'', Opt (Chr (CHR ''s'')), Str '' in'', WordB],
     seq [WordB, Str ''for example'', WordB], seq [WordB, Str ''such as'', WordB],
     seq [WordB, Str ''first'', WordB], seq [WordB, Str ''second'', WordB],
     seq [WordB, Str ''finally'', WordB],
     seq [WordB, Str ''according to'', WordB], seq [WordB, Str ''studies show'', WordB]]"

definition is_informative :: "string \<Rightarrow> bool" where
  "is_informative text = list_ex (\<lambda>pattern. re_search pattern True text) informative_patterns"

definition generate_summary :: "tokenizer \<Rightarrow> string \<Rightarrow> string" where
  "generate_summary tokenize text =
     (case tokenize text of
        [] \<Rightarrow> ''No content to summarize.''
      | first_sentence # _ \<Rightarrow>
          first_sentence @ [newline, newline]
            @ ''[Note: This is a placeholder summary. In the actual implementation, this would be generated using a summarization algorithm.]'')"

definition generate_question :: "tokenizer \<Rightarrow> string \<Rightarrow> string option" where
  "generate_question tokenize text =
     (case tokenize text of
        [] \<Rightarrow> None
      | first_sentence # _ \<Rightarrow>
          let words = split first_sentence in
          if len words < 3 then None
          else
            let subject = join '' '' (take 2 (drop 1 words))
            in Some (''What can you tell me about '' @ subject @ ''?''))"

definition generate_answer :: "string \<Rightarrow> string \<Rightarrow> string" where
  "generate_answer text question =
     take 200 text @ ''...'' @ [newline, newline]
       @ ''[Note: This is a placeholder answer. In the actual implementation, this would be generated using a question-answering algorithm.]''"

text \<open>The body of the loop of \<open>create_samples_from_text\<close>: the samples of one paragraph.\<close>

definition paragraph_samples :: "tokenizer \<Rightarrow> string dict \<Rightarrow> string \<Rightarrow> sample list" where
  "paragraph_samples tokenize metadata paragraph =
     (if strip paragraph = [] \<or> len paragraph < 100 then []
      else
        [(''input'', ''Summarize the following text from ''
                       @ dict_get metadata ''filename'' ''the document'' @ '':''
                       @ [newline, newline] @ paragraph),
         (''output'', generate_summary tokenize paragraph)]
        # (if len paragraph > 200 \<and> is_informative paragraph then
             (case generate_question tokenize paragraph of
                None \<Rightarrow> []
              | Some question \<Rightarrow>
                  if question = [] then []
                  else [[(''input'', question), (''output'', generate_answer paragraph question)]])
           else []))"

definition create_samples_from_text :: "tokenizer \<Rightarrow> string \<Rightarrow> string dict \<Rightarrow> sample list" where
  "create_samples_from_text tokenize text metadata =
     concat (map (paragraph_samples tokenize metadata) (re_split paragraph_break text))"

subsection \<open>Dataset identifiers\<close>

text \<open>
  \<^verbatim>\<open>hashlib.md5\<close> is MD5 (RFC 1321), written out here. \<^verbatim>\<open>str.encode()\<close> is UTF-8: a
  code point below 128 is one byte, one from 128 to 255 two bytes.
\<close>

definition utf8_encode :: "string \<Rightarrow> 8 word list" where
  "utf8_encode s =
     concat (map (\<lambda>c. let n = of_char c :: nat in
                       if n < 128 then [word_of_nat n]
                       else [word_of_nat (192 + n div 64), word_of_nat (128 + n mod 64)]) s)"

definition md5_shifts :: "nat list" where
  "md5_shifts =
     [7, 12, 17, 22, 7, 12, 17, 22, 7, 12, 17, 22, 7, 12, 17, 22,
      5, 9, 14, 20, 5, 9, 14, 20, 5, 9, 14, 20, 5, 9, 14, 20,
      4, 11, 16, 23, 4, 11, 16, 23, 4, 11, 16, 23, 4, 11, 16, 23,
      6, 10, 15, 21, 6, 10, 15, 21, 6, 10, 15, 21, 6, 10, 15, 21]"

definition md5_sines :: "32 word list" where
  "md5_sines =
    [0xd76aa478, 0xe8c7b756, 0x242070db, 0xc1bdceee,
     0xf57c0faf, 0x4787c62a, 0xa8304613, 0xfd469501,
     0x698098d8, 0x8b44f7af, 0xffff5bb1, 0x895cd7be,
     0x6b901122, 0xfd987193, 0xa679438e, 0x49b40821,
     0xf61e2562, 0xc040b340, 0x265e5a51, 0xe9b6c7aa,
     0xd62f105d, 0x02441453, 0xd8a1e681, 0xe7d3fbc8,
     0x21e1cde6, 0xc33707d6, 0xf4d50d87, 0x455a14ed,
     0xa9e3e905, 0xfcefa3f8, 0x676f02d9, 0x8d2a4c8a,
     0xfffa3942, 0x8771f681, 0x6d9d6122, 0xfde5380c,
     0xa4beea44, 0x4bdecfa9, 0xf6bb4b60, 0xbebfbc70,
     0x289b7ec6, 0xeaa127fa, 0xd4ef3085, 0x04881d05,
     0xd9d4d039, 0xe6db99e5, 0x1fa27cf8, 0xc4ac5665,
     0xf4292244, 0x432aff97, 0xab9423a7, 0xfc93a039,
     0x655b59c3, 0x8f0ccc92, 0xffeff47d, 0x85845dd1,
     0x6fa87e4f, 0xfe2ce6e0, 0xa3014314, 0x4e0811a1,
     0xf7537e82, 0xbd3af235, 0x2ad7d2bb, 0xeb86d391]"

definition md5_pad :: "8 word list \<Rightarrow> 8 word list" where
  "md5_pad msg =
     (let n = length msg;
          zeros = (55 + 64 - n mod 64) mod 64;
          bits = word_of_nat (8 * n) :: 64 word
      in msg @ [0x80] @ replicate zeros 0 @ map (\<lambda>i. ucast (drop_bit (8 * i) bits)) [0..<8])"

definition le_word32 :: "8 word list \<Rightarrow> 32 word" where
  "le_word32 bs = foldr (\<lambda>b w. ucast b OR push_bit 8 w) bs 0"

fun chunks :: "nat \<Rightarrow> nat \<Rightarrow> 'a list \<Rightarrow> 'a list list" where
  "chunks 0 k xs = []"
| "chunks (Suc n) k xs = take k xs # chunks n k (drop k xs)"

type_synonym md5_state = "32 word \<times> 32 word \<times> 32 word \<times> 32 word"

definition md5_round :: "32 word list \<Rightarrow> md5_state \<Rightarrow> nat \<Rightarrow> md5_state" where
  "md5_round m st i =
     (case st of (a, b, c, d) \<Rightarrow>
        let (f, g) =
              (if i < 16 then ((b AND c) OR (NOT b AND d), i)
               else if i < 32 then ((d AND b) OR (NOT d AND c), (5 * i + 1) mod 16)
               else if i < 48 then (b XOR c XOR d, (3 * i + 5) mod 16)
               else (c XOR (b OR NOT d), (7 * i) mod 16));
            f = f + a + md5_sines ! i + m ! g
        in (d, b + word_rotl (md5_shifts ! i) f, b, c))"

definition md5_block :: "md5_state \<Rightarrow> 8 word list \<Rightarrow> md5_state" where
  "md5_block st block =
     (let m = map le_word32 (chunks 16 4 block) in
      case st of (a0, b0, c0, d0) \<Rightarrow>
      case foldl (md5_round m) st [0..<64] of (a, b, c, d) \<Rightarrow>
        (a0 + a, b0 + b, c0 + c, d0 + d))"

definition md5_digest :: "8 word list \<Rightarrow> 8 word list" where
  "md5_digest msg =
     (let padded = md5_pad msg;
          st = foldl md5_block (0x67452301, 0xefcdab89, 0x98badcfe, 0x10325476)
                 (chunks (length padded div 64) 64 padded)
      in case st of (a, b, c, d) \<Rightarrow>
           concat (map (\<lambda>w. map (\<lambda>i. ucast (drop_bit (8 * i) w)) [0..<4]) [a, b, c, d]))"

definition hex_byte :: "8 word \<Rightarrow> string" where
  "hex_byte b = [''0123456789abcdef'' ! (unat b div 16), ''0123456789abcdef'' ! (unat b mod 16)]"

definition md5_hexdigest :: "8 word list \<Rightarrow> string" where
  "md5_hexdigest msg = concat (map hex_byte (md5_digest msg))"

text \<open>\<open>now\<close> is \<^verbatim>\<open>int(time.time())\<close> at the call.\<close>

definition generate_id :: "int \<Rightarrow> string list \<Rightarrow> string" where
  "generate_id now doc_ids =
     (let sorted_ids = sort doc_ids;
          hash_input = join ''_'' sorted_ids;
          hash_value = take 8 (md5_hexdigest (utf8_encode hash_input));
          timestamp = now
      in ''ds_'' @ str_int timestamp @ ''_'' @ hash_value)"

subsection \<open>The dataset directory\<close>

text \<open>
  The state is the content of \<^verbatim>\<open>base_dir\<close>: a map from the name of a dataset directory
  to the files in it. A dataset id is taken to be a plain directory name. A JSON file is
  modelled by the value that \<^verbatim>\<open>json.dump\<close> writes and \<^verbatim>\<open>json.load\<close> reads back; file
  operations are taken to succeed.
\<close>

datatype pyval = PyStr string | PyInt int | PyNum rat | PyBool bool | PyStrList "string list"

datatype artifact =
    SamplesFile "sample list"
  | AnalysisFile analysis
  | MetadataFile "pyval dict"

type_synonym datasets = "string \<rightharpoonup> (string \<rightharpoonup> artifact)"

definition makedirs :: "datasets \<Rightarrow> string \<Rightarrow> datasets" where
  \<comment> \<open>\<^verbatim>\<open>os.makedirs(os.path.join(base_dir, d), exist_ok=True)\<close>\<close>
  "makedirs fs d = (case fs d of None \<Rightarrow> fs(d \<mapsto> Map.empty) | Some files \<Rightarrow> fs)"

definition write_file :: "datasets \<Rightarrow> string \<Rightarrow> string \<Rightarrow> artifact \<Rightarrow> datasets" where
  \<comment> \<open>\<^verbatim>\<open>json.dump\<close> into a file of the directory \<open>d\<close>, which \<open>create_dataset\<close> has made before\<close>
  "write_file fs d name content =
     (case fs d of None \<Rightarrow> fs | Some files \<Rightarrow> fs(d \<mapsto> files(name \<mapsto> content)))"

text \<open>The body of the loop of \<open>create_dataset\<close>: the samples of one document.\<close>

definition document_samples :: "environment \<Rightarrow> string \<Rightarrow> sample list" where
  "document_samples env doc_id =
     (case fst (extract_from_document env doc_id) of
        (success, msg, text) \<Rightarrow>
          (case text of
             None \<Rightarrow> []
           | Some text \<Rightarrow>
               if \<not> success \<or> text = [] then []
               else
                 let filtered_text = filter_content (sent_tokenize env) text;
                     metadata = (case get_document_metadata env doc_id of
                                   None \<Rightarrow> [] | Some m \<Rightarrow> m)
                 in create_samples_from_text (sent_tokenize env) filtered_text metadata))"

definition dataset_id_for :: "int \<Rightarrow> string list \<Rightarrow> string option \<Rightarrow> string" where
  \<comment> \<open>line 312: \<^verbatim>\<open>dataset_name or f"dataset_{self._generate_id(doc_ids)}"\<close>\<close>
  "dataset_id_for now doc_ids dataset_name =
     (case dataset_name of
        None \<Rightarrow> ''dataset_'' @ generate_id now doc_ids
      | Some name \<Rightarrow> if name = [] then ''dataset_'' @ generate_id now doc_ids else name)"

definition create_dataset ::
  "environment \<Rightarrow> int \<Rightarrow> datasets \<Rightarrow> string list \<Rightarrow> string option
     \<Rightarrow> (bool \<times> string \<times> string option) \<times> datasets" where
  "create_dataset env now fs doc_ids dataset_name =
     (if doc_ids = [] then ((False, ''No documents specified'', None), fs)
      else
        let dataset_id = dataset_id_for now doc_ids dataset_name;
            fs = makedirs fs dataset_id;
            samples = concat (map (document_samples env) doc_ids)
        in if samples = [] then
             ((False, ''No valid samples could be created from the documents'', None), fs)
           else
             let analysis = analyze_dataset samples;
                 fs = write_file fs dataset_id ''dataset.json'' (SamplesFile samples);
                 fs = write_file fs dataset_id ''analysis.json'' (AnalysisFile analysis);
                 metadata =
                   [(''dataset_id'', PyStr dataset_id),
                    (''document_ids'', PyStrList doc_ids),
                    (''sample_count'', PyInt (len samples)),
                    (''created_at'', PyStr ''2025-03-16T01:40:00Z''),
                    (''is_sufficient'', PyBool (is_sufficient analysis)),
                    (''sufficiency_score'', PyNum (sufficiency_score (stats analysis)))];
                 fs = write_file fs dataset_id ''metadata.json'' (MetadataFile metadata)
             in ((True, ''Dataset created with '' @ str_int (len samples) @ '' samples'',
                  Some dataset_id), fs))"

definition get_dataset :: "datasets \<Rightarrow> string \<Rightarrow> artifact option" where
  "get_dataset fs dataset_id =
     (case fs dataset_id of None \<Rightarrow> None | Some files \<Rightarrow> files ''dataset.json'')"

definition get_dataset_metadata :: "datasets \<Rightarrow> string \<Rightarrow> artifact option" where
  "get_dataset_metadata fs dataset_id =
     (case fs dataset_id of None \<Rightarrow> None | Some files \<Rightarrow> files ''metadata.json'')"

definition list_datasets :: "datasets \<Rightarrow> string set" where
  \<comment> \<open>the directories of \<^verbatim>\<open>base_dir\<close>; \<^verbatim>\<open>os.listdir\<close> gives them in no particular order\<close>
  "list_datasets fs = dom fs"

definition delete_dataset :: "datasets \<Rightarrow> string \<Rightarrow> bool \<times> datasets" where
  "delete_dataset fs dataset_id =
     (case fs dataset_id of
        None \<Rightarrow> (False, fs)
      | Some files \<Rightarrow> (True, fs(dataset_id := None)))"

section \<open>Example inputs\<close>

text \<open>
  Three short texts and a document store with three documents, for the concrete
  instances below: a plain-text document about lamps, a document with blank content
  under an upper-case extension, and a document with an extension that has no
  extraction method.
\<close>

definition lamp_text :: string where
  "lamp_text = ''A lamp is defined as a device that gives light. It stands on a desk or hangs from the ceiling, and it needs a source of power. Most lamps today use LEDs, which use far less energy than the bulbs of old. Go.''"

definition lamp_text_200 :: string where
  "lamp_text_200 = ''A lamp is defined as a device that gives light. It stands on a desk or hangs from the ceiling, and it needs a source of power. Most lamps today use LEDs, which use far less energy than the aged bulbs.''"

definition plain_text :: string where
  "plain_text = ''Lamps give light. They stand on desks or hang from ceilings, and they need power. Most lamps today use LEDs, which use far less energy.''"

definition example_env :: environment where
  "example_env =
     \<lparr>get_document_path =
        (\<lambda>d. if d = ''lamp'' then Some ''/data/documents/lamp/document.txt''
             else if d = ''blank'' then Some ''/data/documents/blank/document.TXT''
             else if d = ''image'' then Some ''/data/documents/image/document.bin''
             else None),
      get_document_metadata =
        (\<lambda>d. if d = ''lamp'' then Some [(''filename'', ''lamp.txt'')] else None),
      read_document =
        (\<lambda>r p. if p = ''/data/documents/lamp/document.txt'' then Inr lamp_text else Inr ''   ''),
      sent_tokenize = period_tokenize\<rparr>"

definition two_paragraphs :: string where
  "two_paragraphs = ''Lamps give light.   They stand on desks.'' @ [newline, newline]
      @ ''  Most lamps today use LEDs. Page 3 of 10'' @ [newline]"

text \<open>A sentence of 1001 letters and a period, and a second sentence in lower case.\<close>

definition long_text :: string where
  "long_text = replicate 1001 (CHR ''a'') @ ''. then it goes on and on.''"

definition stable_text :: string where
  "stable_text = ''Lamps give light.  Short.  They stand on desks and hang from ceilings.''"

chapter \<open>Properties\<close>

section \<open>Rounding to binary64\<close>

lemma ilog2_bounds: "0 < x \<Longrightarrow> 2 powi ilog2 x \<le> x \<and> x < 2 powi (ilog2 x + 1)"
proof (induction x rule: ilog2.induct)
  case (1 x)
  show ?case
  proof (cases "x < 1")
    case True
    with 1 have ih: "2 powi ilog2 (2 * x) \<le> 2 * x \<and> 2 * x < 2 powi (ilog2 (2 * x) + 1)" by simp
    have e: "ilog2 x = ilog2 (2 * x) - 1" using True "1.prems" by (subst ilog2.simps) simp
    show ?thesis using ih unfolding e by (simp add: power_int_diff power_int_add)
  next
    case False
    show ?thesis
    proof (cases "2 \<le> x")
      case True
      with False 1 have ih: "2 powi ilog2 (x / 2) \<le> x / 2 \<and> x / 2 < 2 powi (ilog2 (x / 2) + 1)" by simp
      have e: "ilog2 x = ilog2 (x / 2) + 1" using True by (subst ilog2.simps) simp
      show ?thesis using ih unfolding e by (simp add: power_int_diff power_int_add)
    next
      case F2: False
      have e: "ilog2 x = 0" using False F2 by (subst ilog2.simps) simp
      show ?thesis using False F2 unfolding e by simp
    qed
  qed
qed

lemma ilog2_mono:
  assumes "0 < x" "x \<le> y"
  shows "ilog2 x \<le> ilog2 y"
proof (rule ccontr)
  assume "\<not> ilog2 x \<le> ilog2 y"
  then have lt: "ilog2 y + 1 \<le> ilog2 x" by simp
  have "y < 2 powi (ilog2 y + 1)" using ilog2_bounds [of y] assms by simp
  also have "\<dots> \<le> (2::rat) powi ilog2 x" using lt by (intro power_int_increasing) simp_all
  also have "\<dots> \<le> x" using ilog2_bounds [of x] assms by simp
  finally show False using assms by simp
qed

lemma round_half_even_lower: "\<lfloor>x\<rfloor> \<le> round_half_even x"
  by (simp add: round_half_even_def Let_def)

lemma round_half_even_upper: "round_half_even x \<le> \<lceil>x\<rceil>"
  unfolding round_half_even_def Let_def
  by (auto simp: ceiling_altdef)

lemma round_half_even_of_int [simp]: "round_half_even (of_int n) = n"
  by (simp add: round_half_even_def)

lemma round_half_even_mono:
  assumes "x \<le> y"
  shows "round_half_even x \<le> round_half_even y"
proof (cases "\<lfloor>x\<rfloor> = \<lfloor>y\<rfloor>")
  case True
  then have "x - of_int \<lfloor>x\<rfloor> \<le> y - of_int \<lfloor>y\<rfloor>" using assms by simp
  then show ?thesis using True unfolding round_half_even_def Let_def by auto
next
  case False
  then have "\<lfloor>x\<rfloor> + 1 \<le> \<lfloor>y\<rfloor>" using floor_mono [OF assms] by simp
  moreover have "round_half_even x \<le> \<lfloor>x\<rfloor> + 1" by (simp add: round_half_even_def Let_def)
  ultimately show ?thesis using round_half_even_lower [of y] by linarith
qed

lemma round_binary64_pos:
  "0 < x \<Longrightarrow> round_binary64 x =
     of_int (round_half_even (x / 2 powi (ilog2 x - 52))) * 2 powi (ilog2 x - 52)"
  by (simp add: round_binary64_def Let_def)

text \<open>A positive number and its rounding lie in the same binade, end points included.\<close>

lemma round_binary64_range:
  assumes "0 < x"
  shows "2 powi ilog2 x \<le> round_binary64 x \<and> round_binary64 x \<le> 2 powi (ilog2 x + 1)"
proof -
  let ?e = "ilog2 x - 52"
  let ?s = "x / 2 powi ?e"
  have p: "(0::rat) < 2 powi ?e" by simp
  have b: "2 powi ilog2 x \<le> x" "x < 2 powi (ilog2 x + 1)" using ilog2_bounds [OF assms] by simp_all
  have lo: "(2::rat) ^ 52 \<le> ?s"
  proof -
    have "(2::rat) ^ 52 * 2 powi ?e = 2 powi ilog2 x" by (simp add: power_int_diff)
    then show ?thesis using b(1) p by (simp add: pos_le_divide_eq)
  qed
  have hi: "?s \<le> (2::rat) ^ 53"
  proof -
    have "(2::rat) ^ 53 * 2 powi ?e = 2 powi (ilog2 x + 1)" by (simp add: power_int_diff power_int_add)
    then show ?thesis using b(2) p by (simp add: pos_divide_le_eq)
  qed
  have "(2::int) ^ 52 \<le> \<lfloor>?s\<rfloor>" using lo by (simp add: le_floor_iff)
  then have l: "(2::int) ^ 52 \<le> round_half_even ?s" using round_half_even_lower [of ?s] by linarith
  have "\<lceil>?s\<rceil> \<le> (2::int) ^ 53" using hi by (simp add: ceiling_le_iff)
  then have u: "round_half_even ?s \<le> (2::int) ^ 53" using round_half_even_upper [of ?s] by linarith
  have "2 powi ilog2 x = (2::rat) ^ 52 * 2 powi ?e" by (simp add: power_int_diff)
  also have "\<dots> \<le> of_int (round_half_even ?s) * 2 powi ?e"
  proof (rule mult_right_mono)
    show "(2::rat) ^ 52 \<le> of_int (round_half_even ?s)"
      using l by (metis of_int_le_iff of_int_numeral of_int_power)
  qed simp
  finally have A: "2 powi ilog2 x \<le> round_binary64 x" by (simp add: round_binary64_pos assms)
  have "of_int (round_half_even ?s) * 2 powi ?e \<le> (2::rat) ^ 53 * 2 powi ?e"
  proof (rule mult_right_mono)
    show "of_int (round_half_even ?s) \<le> (2::rat) ^ 53"
      using u by (metis of_int_le_iff of_int_numeral of_int_power)
  qed simp
  also have "\<dots> = 2 powi (ilog2 x + 1)" by (simp add: power_int_diff power_int_add)
  finally have B: "round_binary64 x \<le> 2 powi (ilog2 x + 1)" by (simp add: round_binary64_pos assms)
  show ?thesis using A B by simp
qed

text \<open>Rounding to nearest is monotone (stated for the non-negative numbers the analyzer has).\<close>

lemma round_binary64_mono:
  assumes "0 \<le> x" "x \<le> y"
  shows "round_binary64 x \<le> round_binary64 y"
proof (cases "x = 0")
  case True
  show ?thesis
  proof (cases "y = 0")
    case False
    then have "0 < y" using assms True by simp
    then have "0 \<le> round_binary64 y"
      using round_binary64_range [of y] zero_le_power_int [of "2::rat" "ilog2 y"] by linarith
    then show ?thesis using True by (simp add: round_binary64_def)
  qed (simp add: True)
next
  case False
  then have x: "0 < x" and y: "0 < y" using assms by simp_all
  have le: "ilog2 x \<le> ilog2 y" using ilog2_mono [OF x assms(2)] .
  show ?thesis
  proof (cases "ilog2 x = ilog2 y")
    case True
    have "x / 2 powi (ilog2 y - 52) \<le> y / 2 powi (ilog2 y - 52)"
      using assms(2) by (simp add: divide_right_mono)
    then have "round_half_even (x / 2 powi (ilog2 y - 52)) \<le> round_half_even (y / 2 powi (ilog2 y - 52))"
      by (rule round_half_even_mono)
    then show ?thesis
      using x y True by (simp add: round_binary64_pos mult_right_mono)
  next
    case False
    then have "ilog2 x + 1 \<le> ilog2 y" using le by simp
    then have "(2::rat) powi (ilog2 x + 1) \<le> 2 powi ilog2 y"
      by (intro power_int_increasing) simp_all
    then show ?thesis
      using round_binary64_range [OF x] round_binary64_range [OF y] by linarith
  qed
qed

lemma round_binary64_0 [simp]: "round_binary64 0 = 0"
  by (simp add: round_binary64_def)

lemma round_binary64_nonneg: "0 \<le> x \<Longrightarrow> 0 \<le> round_binary64 x"
  using round_binary64_mono [of 0 x] by simp

lemma round_binary64_150: "round_binary64 150 = 150"
  by code_simp


section \<open>Matching and white space\<close>

lemma star_iter_rest:
  assumes f: "\<forall>p s p' s'. (p', s') \<in> set (f (p, s)) \<longrightarrow> (\<exists>pre. s = pre @ s')"
  shows "(p', s') \<in> set (star_iter n f (p, s)) \<Longrightarrow> \<exists>pre. s = pre @ s'"
proof (induction n arbitrary: p s)
  case 0
  then show ?case by simp
next
  case (Suc n)
  from Suc.prems consider "(p', s') = (p, s)"
    | q t where "(q, t) \<in> set (f (p, s))" "(p', s') \<in> set (star_iter n f (q, t))"
    by (auto split: if_splits)
  then show ?case
  proof cases
    case 1
    then show ?thesis by simp
  next
    case 2
    from f 2(1) obtain pre1 where "s = pre1 @ t" by blast
    moreover from Suc.IH [OF 2(2)] obtain pre2 where "t = pre2 @ s'" by blast
    ultimately show ?thesis by simp
  qed
qed

lemma step_char_rest: "(p', s') \<in> set (step_char P (p, s)) \<Longrightarrow> \<exists>pre. s = pre @ s'"
  by (cases s) (auto split: if_splits)

lemma rmatch_rest: "(p', s') \<in> set (rmatch r ic (p, s)) \<Longrightarrow> \<exists>pre. s = pre @ s'"
proof (induction r arbitrary: p s p' s')
  case (Seq a b)
  then obtain q t where "(q, t) \<in> set (rmatch a ic (p, s))" "(p', s') \<in> set (rmatch b ic (q, t))"
    by auto
  with Seq.IH show ?case by (metis append.assoc)
next
  case (Opt a)
  then show ?case by auto
next
  case (Star a)
  then have "\<forall>p s p' s'. (p', s') \<in> set (rmatch a ic (p, s)) \<longrightarrow> (\<exists>pre. s = pre @ s')"
    by blast
  from star_iter_rest [OF this] Star.prems show ?case by simp
next
  case (Plus a)
  then obtain q t where 1: "(q, t) \<in> set (rmatch a ic (p, s))"
    and 2: "(p', s') \<in> set (star_iter (length t) (rmatch a ic) (q, t))"
    by auto
  from Plus.IH [OF 1] obtain pre1 where "s = pre1 @ t" by blast
  moreover have "\<forall>p s p' s'. (p', s') \<in> set (rmatch a ic (p, s)) \<longrightarrow> (\<exists>pre. s = pre @ s')"
    using Plus.IH by blast
  from star_iter_rest [OF this 2] obtain pre2 where "t = pre2 @ s'"
    by blast
  ultimately show ?case by simp
qed (auto dest: step_char_rest split: if_splits)


lemma star_iter_nonempty: "star_iter n f st \<noteq> []"
  by (cases n) simp_all

lemma hd_in_set_rmatch:
  "rmatch r ic (p, s) = (p', s') # rest \<Longrightarrow> \<exists>pre. s = pre @ s'"
  using rmatch_rest [of p' s' r ic p s] by simp

text \<open>White-space runs: \<^verbatim>\<open>\s+\<close> matches at a white-space character and nowhere else.\<close>

lemma rmatch_plus_space_no: "\<not> isspace c \<Longrightarrow> rmatch (Plus Space) ic (p, c # cs) = []"
  by simp

lemma rmatch_plus_space_nil: "rmatch (Plus Space) ic (p, []) = []"
  by simp

lemma rmatch_plus_space_yes:
  assumes "isspace c"
  shows "\<exists>p' s' rest. rmatch (Plus Space) ic (p, c # cs) = (p', s') # rest \<and> length s' \<le> length cs"
proof -
  have e: "rmatch (Plus Space) ic (p, c # cs) = star_iter (length cs) (step_char isspace) (Some c, cs)"
    using assms by simp
  obtain p' s' rest where r: "star_iter (length cs) (step_char isspace) (Some c, cs) = (p', s') # rest"
    using star_iter_nonempty [of "length cs" "step_char isspace" "(Some c, cs)"]
    by (cases "star_iter (length cs) (step_char isspace) (Some c, cs)") auto
  then have "(p', s') \<in> set (star_iter (length cs) (step_char isspace) (Some c, cs))" by simp
  moreover have "\<forall>p s p' s'. (p', s') \<in> set (step_char isspace (p, s)) \<longrightarrow> (\<exists>pre. s = pre @ s')"
    using step_char_rest by blast
  ultimately obtain pre where "cs = pre @ s'" using star_iter_rest by blast
  then have "length s' \<le> length cs" by simp
  with e r show ?thesis by simp
qed

lemma re_sub_spaces_chars:
  "set (re_sub_from (Plus Space) repl p s) \<subseteq> set repl \<union> {c \<in> set s. \<not> isspace c}"
proof (induction "length s" arbitrary: p s rule: less_induct)
  case less
  show ?case
  proof (cases s)
    case Nil
    then show ?thesis by (subst re_sub_from.simps) simp
  next
    case (Cons c cs)
    show ?thesis
    proof (cases "isspace c")
      case True
      from rmatch_plus_space_yes [OF True, of False p cs] obtain p' s' rest
        where m: "rmatch (Plus Space) False (p, c # cs) = (p', s') # rest" and l: "length s' \<le> length cs"
        by blast
      from hd_in_set_rmatch [OF m] obtain pre where pre: "c # cs = pre @ s'" by blast
      have lt: "length s' < length s" using l Cons by simp
      have ih: "set (re_sub_from (Plus Space) repl p' s') \<subseteq> set repl \<union> {c \<in> set s'. \<not> isspace c}"
        using less [OF lt] .
      have sub: "set s' \<subseteq> set s" using pre Cons by (metis set_append sup_ge2)
      have "re_sub_from (Plus Space) repl p s = repl @ re_sub_from (Plus Space) repl p' s'"
        using m lt Cons by (subst re_sub_from.simps) simp
      then show ?thesis using ih sub by auto
    next
      case False
      have m: "rmatch (Plus Space) False (p, s) = []" using False Cons by simp
      have ih: "set (re_sub_from (Plus Space) repl (Some c) cs) \<subseteq> set repl \<union> {c \<in> set cs. \<not> isspace c}"
        using less [of cs] Cons by simp
      have "re_sub_from (Plus Space) repl p s = c # re_sub_from (Plus Space) repl (Some c) cs"
        using m Cons by (subst re_sub_from.simps) simp
      then show ?thesis using ih False Cons by auto
    qed
  qed
qed

lemma re_sub_newlines_id:
  "newline \<notin> set s \<Longrightarrow> re_sub_from (Plus (Chr newline)) repl p s = s"
proof (induction s arbitrary: p)
  case Nil
  show ?case by (subst re_sub_from.simps) simp
next
  case (Cons c cs)
  then have m: "rmatch (Plus (Chr newline)) False (p, c # cs) = []" by auto
  show ?case using Cons m by (subst re_sub_from.simps) simp
qed

lemma set_strip: "set (strip s) \<subseteq> set s"
proof -
  have "set (strip s) \<subseteq> set (rev (dropWhile isspace s))"
    using set_dropWhileD [of _ isspace "rev (dropWhile isspace s)"] unfolding strip_def by auto
  also have "\<dots> \<subseteq> set s" using set_dropWhileD [of _ isspace s] by auto
  finally show ?thesis .
qed

lemma isspace_newline: "isspace newline"
  by (simp add: isspace_def)

lemma normalize_whitespace_chars:
  "set (normalize_whitespace text) \<subseteq> {CHR '' ''} \<union> {c \<in> set text. \<not> isspace c}"
proof -
  let ?t1 = "re_sub (Plus Space) '' '' text"
  have 1: "set ?t1 \<subseteq> {CHR '' ''} \<union> {c \<in> set text. \<not> isspace c}"
    using re_sub_spaces_chars [of "'' ''" None "text"] by (simp add: re_sub_def)
  then have "newline \<notin> set ?t1" using isspace_newline by auto
  then have "re_sub (Plus (Chr newline)) [newline, newline] ?t1 = ?t1"
    by (simp add: re_sub_def re_sub_newlines_id)
  then have "normalize_whitespace text = strip ?t1" by (simp add: normalize_whitespace_def)
  then show ?thesis using 1 set_strip [of ?t1] by auto
qed

lemma normalize_whitespace_no_newline: "newline \<notin> set (normalize_whitespace text)"
  using normalize_whitespace_chars [of "text"] isspace_newline by auto


section \<open>TextExtractor: failures\<close>

lemma extract_from_document_dispatch:
  assumes "get_document_path env doc_id = Some doc_path" "doc_path \<noteq> []"
  shows "extract_from_document env doc_id =
     (case reader_for (lower (snd (splitext doc_path))) of
        None \<Rightarrow> ((False, ''Unsupported file format: '' @ lower (snd (splitext doc_path)), None), [])
      | Some r \<Rightarrow> extract_with env r doc_path)"
  using assms by (simp add: extract_from_document_def reader_for_def Let_def)

text \<open>
  C9. For a stored document, \<open>extract_from_document\<close> reads the extension in lower
  case. If it is none of \<^verbatim>\<open>.pdf\<close>, \<^verbatim>\<open>.docx\<close>, \<^verbatim>\<open>.txt\<close>, \<^verbatim>\<open>.md\<close>, \<^verbatim>\<open>.html\<close>,
  the call fails with the unsupported-format message and no extraction method is called.
  If it is one of them and the method selected for it returns an empty or white-space-only
  text, the call fails with the no-content message. In both failures the returned text is
  \<open>None\<close>.
\<close>

theorem extract_from_document_failures:
  assumes "get_document_path env doc_id = Some doc_path" and "doc_path \<noteq> []"
  shows "(lower (snd (splitext doc_path)) \<notin> {''.pdf'', ''.docx'', ''.txt'', ''.md'', ''.html''} \<longrightarrow>
            extract_from_document env doc_id =
              ((False, ''Unsupported file format: '' @ lower (snd (splitext doc_path)), None), []))
       \<and> (\<forall>r text. reader_for (lower (snd (splitext doc_path))) = Some r
              \<and> read_document env r doc_path = Inr text \<and> (text = [] \<or> strip text = []) \<longrightarrow>
            extract_from_document env doc_id =
              ((False, ''No text content extracted from document'', None), [(r, doc_path)]))"
proof (intro conjI impI allI)
  assume "lower (snd (splitext doc_path)) \<notin> {''.pdf'', ''.docx'', ''.txt'', ''.md'', ''.html''}"
  then show "extract_from_document env doc_id =
      ((False, ''Unsupported file format: '' @ lower (snd (splitext doc_path)), None), [])"
    using assms by (simp add: extract_from_document_def Let_def)
next
  fix r t
  assume "reader_for (lower (snd (splitext doc_path))) = Some r
              \<and> read_document env r doc_path = Inr t \<and> (t = [] \<or> strip t = [])"
  then show "extract_from_document env doc_id =
      ((False, ''No text content extracted from document'', None), [(r, doc_path)])"
    by (auto simp: extract_from_document_dispatch [OF assms] extract_with_def)
qed

theorem extract_from_document_failures_witness:
  "get_document_path example_env ''image'' = Some ''/data/documents/image/document.bin''
   \<and> extract_from_document example_env ''image'' =
        ((False, ''Unsupported file format: .bin'', None), [])
   \<and> get_document_path example_env ''blank'' = Some ''/data/documents/blank/document.TXT''
   \<and> read_document example_env TextReader ''/data/documents/blank/document.TXT'' = Inr ''   ''
   \<and> extract_from_document example_env ''blank'' =
        ((False, ''No text content extracted from document'', None),
         [(TextReader, ''/data/documents/blank/document.TXT'')])"
proof -
  have p2: "get_document_path example_env ''image'' = Some ''/data/documents/image/document.bin''"
    and p1: "get_document_path example_env ''blank'' = Some ''/data/documents/blank/document.TXT''"
    and r1: "read_document example_env TextReader ''/data/documents/blank/document.TXT'' = Inr ''   ''"
    by (simp_all add: example_env_def)
  have e2: "lower (snd (splitext ''/data/documents/image/document.bin'')) = ''.bin''" by code_simp
  have e1: "lower (snd (splitext ''/data/documents/blank/document.TXT'')) = ''.txt''" by code_simp
  have s: "strip ''   '' = []" by code_simp
  have f1: "reader_for ''.txt'' = Some TextReader" by (simp add: reader_for_def)
  show ?thesis
    using extract_from_document_failures [OF p2] extract_from_document_failures [OF p1]
    by (simp add: e1 e2 p1 p2 r1 s f1)
qed

section \<open>ContentFilter: the filtered text\<close>

lemma set_join: "set (join sep xs) \<subseteq> set sep \<union> \<Union> (set ` set xs)"
  by (induction sep xs rule: join.induct) auto

lemma filter_sentences_chars:
  "s \<in> set (filter_sentences sentences) \<Longrightarrow>
   set s \<subseteq> \<Union> (set ` set sentences) \<union> {CHR ''.''}"
proof (induction sentences)
  case Nil
  then show ?case by simp
next
  case (Cons x xs)
  have t: "set (take n (strip x)) \<subseteq> set x" for n
    using set_take_subset [of n "strip x"] set_strip [of x] by blast
  from Cons.prems consider "s \<in> set (filter_sentences xs)" | "s = strip x"
    | "s = take (nat max_sentence_length) (strip x) @ ''...''"
    by (auto simp: Let_def split: if_splits)
  then show ?case
  proof cases
    case 1
    then show ?thesis using Cons.IH by auto
  next
    case 2
    then show ?thesis using set_strip [of x] by auto
  next
    case 3
    then show ?thesis using t by auto
  qed
qed

lemma re_split_no_newline:
  "newline \<notin> set s \<Longrightarrow> re_split_from paragraph_break p s cur = [rev cur @ s]"
proof (induction s arbitrary: p cur)
  case Nil
  show ?case by (subst re_split_from.simps) (simp add: paragraph_break_def)
next
  case (Cons c cs)
  then have m: "rmatch paragraph_break False (p, c # cs) = []"
    by (auto simp: paragraph_break_def)
  show ?case using Cons m by (subst re_split_from.simps) simp
qed

lemma one_paragraph:
  "newline \<notin> set t \<Longrightarrow> re_split paragraph_break t = [t]"
  by (simp add: re_split_def re_split_no_newline)

lemma filter_content_no_newline:
  assumes "\<forall>s \<in> set (tokenize (normalize_whitespace t)). set s \<subseteq> set (normalize_whitespace t)"
  shows "newline \<notin> set (filter_content tokenize t)"
proof
  assume "newline \<in> set (filter_content tokenize t)"
  then have "newline \<in> set (join '' '' (filter_sentences (tokenize (normalize_whitespace t))))"
    by (simp add: filter_content_def Let_def)
  then obtain s where s: "s \<in> set (filter_sentences (tokenize (normalize_whitespace t)))"
    and n: "newline \<in> set s"
    using set_join [of "'' ''" "filter_sentences (tokenize (normalize_whitespace t))"] by auto
  from filter_sentences_chars [OF s] n obtain x
    where "x \<in> set (tokenize (normalize_whitespace t))" "newline \<in> set x"
    by auto
  with assms have "newline \<in> set (normalize_whitespace t)" by blast
  then show False using normalize_whitespace_no_newline by blast
qed

text \<open>
  C4. The output of \<open>filter_content\<close> has no newline, so \<open>create_samples_from_text\<close>
  splits it into exactly one paragraph, the whole filtered text. The tokenizer is outside
  the module; what is used of it is that the sentences it returns for the normalised text
  are made of characters of that text, as slices of it are.
\<close>

theorem filtered_text_is_one_paragraph:
  assumes "\<forall>s \<in> set (tokenize (normalize_whitespace t)). set s \<subseteq> set (normalize_whitespace t)"
  shows "newline \<notin> set (filter_content tokenize t)
       \<and> re_split paragraph_break (filter_content tokenize t) = [filter_content tokenize t]
       \<and> create_samples_from_text tokenize (filter_content tokenize t) metadata
           = paragraph_samples tokenize metadata (filter_content tokenize t)"
  using filter_content_no_newline [where tokenize = tokenize and t = t, OF assms]
  by (simp add: one_paragraph create_samples_from_text_def)

lemma period_tokenize_from_chars:
  "s \<in> set (period_tokenize_from cur t) \<Longrightarrow> set s \<subseteq> set cur \<union> set t"
proof (induction t arbitrary: cur)
  case Nil
  then show ?case by (auto split: if_splits)
next
  case (Cons c cs)
  show ?case
  proof (cases "cur = [] \<and> isspace c")
    case True
    then have "s \<in> set (period_tokenize_from [] cs)" using Cons.prems by simp
    from Cons.IH [OF this] show ?thesis by auto
  next
    case False
    then consider "s = rev (c # cur)" | "s \<in> set (period_tokenize_from [] cs)"
      | "s \<in> set (period_tokenize_from (c # cur) cs)"
      using Cons.prems by (auto split: if_splits)
    then show ?thesis
    proof cases
      case 1
      then show ?thesis by auto
    next
      case 2
      from Cons.IH [OF this] show ?thesis by auto
    next
      case 3
      from Cons.IH [OF this] show ?thesis by auto
    qed
  qed
qed

lemma period_tokenize_chars: "s \<in> set (period_tokenize t) \<Longrightarrow> set s \<subseteq> set t"
  using period_tokenize_from_chars [of s "[]" t] by (simp add: period_tokenize_def)

theorem filtered_text_is_one_paragraph_witness:
  "normalize_whitespace two_paragraphs
     = ''Lamps give light. They stand on desks. Most lamps today use LEDs. Page 3 of 10''
   \<and> period_tokenize (normalize_whitespace two_paragraphs)
       = [''Lamps give light.'', ''They stand on desks.'', ''Most lamps today use LEDs.'',
          ''Page 3 of 10'']
   \<and> filter_content period_tokenize two_paragraphs
       = ''Lamps give light. They stand on desks. Most lamps today use LEDs.''
   \<and> re_split paragraph_break (filter_content period_tokenize two_paragraphs)
       = [''Lamps give light. They stand on desks. Most lamps today use LEDs.'']"
proof -
  have n: "normalize_whitespace two_paragraphs
     = ''Lamps give light. They stand on desks. Most lamps today use LEDs. Page 3 of 10''"
    by code_simp
  have p: "period_tokenize (normalize_whitespace two_paragraphs)
       = [''Lamps give light.'', ''They stand on desks.'', ''Most lamps today use LEDs.'',
          ''Page 3 of 10'']"
    by code_simp
  have h: "\<forall>s \<in> set (period_tokenize (normalize_whitespace two_paragraphs)).
       set s \<subseteq> set (normalize_whitespace two_paragraphs)"
    using period_tokenize_chars by blast
  have v: "filter_content period_tokenize two_paragraphs
       = ''Lamps give light. They stand on desks. Most lamps today use LEDs.''"
    by code_simp
  show ?thesis
    using filtered_text_is_one_paragraph [where tokenize = period_tokenize and t = two_paragraphs, OF h] n p v
    by simp
qed


section \<open>ContentFilter: filtering twice\<close>

lemma strip_edges:
  assumes "strip s \<noteq> []"
  shows "\<not> isspace (hd (strip s)) \<and> \<not> isspace (last (strip s))"
proof -
  let ?u = "dropWhile isspace s"
  let ?v = "dropWhile isspace (rev ?u)"
  have s: "strip s = rev ?v" by (simp add: strip_def)
  with assms have v: "?v \<noteq> []" by simp
  then have u: "?u \<noteq> []"
    by (cases ?u) (simp_all del: dropWhile_eq_Nil_conv)
  have "\<not> isspace (hd ?v)" using v by (rule hd_dropWhile)
  then have l: "\<not> isspace (last (strip s))" using v by (simp add: s last_rev)
  obtain pre where pre: "rev ?u = pre @ ?v"
    by (metis takeWhile_dropWhile_id)
  then have "last ?v = last (rev ?u)" using v by (metis last_appendR)
  also have "\<dots> = hd ?u" using u by (simp add: last_rev)
  finally have "hd (strip s) = hd ?u" using v by (simp add: s hd_rev)
  moreover have "\<not> isspace (hd ?u)" using u by (rule hd_dropWhile)
  ultimately show ?thesis using l by simp
qed

lemma strip_id:
  assumes "s \<noteq> []" "\<not> isspace (hd s)" "\<not> isspace (last s)"
  shows "strip s = s"
proof -
  have 1: "dropWhile isspace s = s" using assms by (cases s) simp_all
  have "rev s \<noteq> []" "\<not> isspace (hd (rev s))" using assms by (simp_all add: hd_rev)
  then have 2: "dropWhile isspace (rev s) = rev s" by (cases "rev s") simp_all
  show ?thesis by (simp add: strip_def 1 2)
qed

lemma strip_strip: "strip (strip s) = strip s"
proof (cases "strip s = []")
  case True
  show ?thesis unfolding True by (simp add: strip_def)
next
  case False
  then show ?thesis using strip_edges [OF False] by (intro strip_id) simp_all
qed

lemma filter_sentences_kept:
  "filter_sentences (x # xs) =
     (case kept x of None \<Rightarrow> filter_sentences xs | Some y \<Rightarrow> y # filter_sentences xs)"
  by (simp add: kept_def Let_def)

lemma kept_fixed:
  assumes "kept x = Some y"
  shows "kept y = Some y"
proof -
  let ?t = "strip x"
  from assms have t: "?t \<noteq> []" and l: "10 \<le> length ?t"
    by (auto simp: kept_def Let_def len_def min_sentence_length_def split: if_splits)
  have e: "\<not> isspace (hd ?t)" "\<not> isspace (last ?t)" using strip_edges [OF t] by simp_all
  show ?thesis
  proof (cases "1000 < length ?t")
    case True
    then have y: "y = take 1000 ?t @ ''...''" and n: "\<not> is_noise y"
      using assms by (auto simp: kept_def Let_def len_def max_sentence_length_def split: if_splits)
    have hd: "hd y = hd ?t" using t True by (cases ?t) (simp_all add: y)
    have sy: "strip y = y"
      by (rule strip_id) (use e hd in \<open>simp_all add: y isspace_def\<close>)
    have ly: "length y = 1003" using True by (simp add: y)
    have "take 1000 y @ ''...'' = y" using True by (simp add: y)
    moreover have "y \<noteq> []" using ly by auto
    ultimately show ?thesis using sy ly n
      by (simp add: kept_def Let_def len_def max_sentence_length_def min_sentence_length_def)
  next
    case False
    then have y: "y = ?t" and n: "\<not> is_noise y"
      using assms by (auto simp: kept_def Let_def len_def max_sentence_length_def split: if_splits)
    have sy: "strip y = y" by (simp add: y strip_strip)
    show ?thesis using sy n False l t
      by (simp add: kept_def Let_def len_def max_sentence_length_def min_sentence_length_def y)
  qed
qed

lemma filter_sentences_fixed:
  "\<forall>y \<in> set ys. kept y = Some y \<Longrightarrow> filter_sentences ys = ys"
proof (induction ys)
  case Nil
  then show ?case by simp
next
  case (Cons y ys)
  then show ?case by (simp only: filter_sentences_kept) simp
qed

lemma filter_sentences_all_kept: "y \<in> set (filter_sentences xs) \<Longrightarrow> kept y = Some y"
proof (induction xs)
  case Nil
  then show ?case by simp
next
  case (Cons x xs)
  then show ?case
    by (simp only: filter_sentences_kept) (auto split: option.splits dest: kept_fixed)
qed

lemma filter_sentences_idem: "filter_sentences (filter_sentences xs) = filter_sentences xs"
  using filter_sentences_all_kept by (intro filter_sentences_fixed) blast

text \<open>
  C3 as stated fails: a truncated sentence ends in an ellipsis, and the tokenizer can
  read the ellipsis and the sentence behind it as one sentence, which the second pass
  truncates again (see \<open>filter_content_not_idempotent\<close> below).
  C3 amended. \<open>filter_content (filter_content x) = filter_content x\<close> whenever the
  tokenizer splits the filtered text back into the sentences that the filter kept. What
  the filter does with a single sentence is idempotent (\<open>kept_fixed\<close>).
\<close>

theorem filter_content_idempotent_if_stable:
  assumes "tokenize (normalize_whitespace (filter_content tokenize t))
           = filter_sentences (tokenize (normalize_whitespace t))"
  shows "filter_content tokenize (filter_content tokenize t) = filter_content tokenize t"
proof -
  have "filter_content tokenize (filter_content tokenize t)
        = join '' '' (filter_sentences (tokenize (normalize_whitespace (filter_content tokenize t))))"
    by (simp add: filter_content_def Let_def)
  also have "\<dots> = join '' '' (filter_sentences (filter_sentences (tokenize (normalize_whitespace t))))"
    by (simp only: assms)
  also have "\<dots> = filter_content tokenize t"
    by (simp add: filter_sentences_idem filter_content_def Let_def)
  finally show ?thesis .
qed


subsection \<open>A text that the filter changes again\<close>

lemma re_sub_spaces_prefix:
  "pre \<noteq> [] \<Longrightarrow> \<forall>c \<in> set pre. \<not> isspace c \<Longrightarrow>
   re_sub_from (Plus Space) repl p (pre @ s) = pre @ re_sub_from (Plus Space) repl (Some (last pre)) s"
proof (induction pre arbitrary: p)
  case Nil
  then show ?case by simp
next
  case (Cons c cs)
  have m: "rmatch (Plus Space) False (p, c # cs @ s) = []" using Cons.prems by simp
  have 1: "re_sub_from (Plus Space) repl p ((c # cs) @ s)
           = c # re_sub_from (Plus Space) repl (Some c) (cs @ s)"
    using m by (subst re_sub_from.simps) simp
  show ?case
  proof (cases "cs = []")
    case True
    then show ?thesis using 1 by simp
  next
    case False
    then show ?thesis using 1 Cons.IH [OF False, of "Some c"] Cons.prems by simp
  qed
qed

lemma period_tokenize_from_prefix:
  "\<forall>c \<in> set pre. \<not> isspace c \<and> c \<notin> set ''.!?'' \<Longrightarrow>
   period_tokenize_from cur (pre @ s) = period_tokenize_from (rev pre @ cur) s"
  by (induction pre arbitrary: cur) simp_all

lemma period_tokenize_from_period:
  "cur \<noteq> [] \<Longrightarrow> hd cur \<noteq> CHR ''.'' \<Longrightarrow>
   period_tokenize_from cur (CHR ''.'' # CHR '' '' # s)
     = rev (CHR ''.'' # cur) # period_tokenize_from [] (CHR '' '' # s)"
  by (cases cur) (simp_all add: isspace_def)

lemma period_tokenize_from_ellipsis:
  "period_tokenize_from cur ''... then it goes on and on.''
     = [rev cur @ ''... then it goes on and on.'']"
  by (simp add: isspace_def less_eq_char_def)

lemma is_noise_letter_a: "strip y = CHR ''a'' # t \<Longrightarrow> \<not> is_noise y"
  by (simp add: is_noise_def re_match_def noise_patterns_def Str_def less_eq_char_def isdigit_def)

lemma normalize_long_text: "normalize_whitespace long_text = long_text"
proof -
  have r: "re_sub_from (Plus Space) '' '' (Some (CHR ''a'')) ''. then it goes on and on.''
           = ''. then it goes on and on.''"
    by code_simp
  have 1: "re_sub (Plus Space) '' '' long_text = long_text"
    unfolding re_sub_def long_text_def
    by (subst re_sub_spaces_prefix) (simp_all add: isspace_def r)
  have 2: "newline \<notin> set long_text" by (simp add: long_text_def)
  have 3: "strip long_text = long_text"
    by (rule strip_id) (simp_all add: long_text_def isspace_def hd_append)
  have 4: "re_sub (Plus (Chr newline)) [newline, newline] long_text = long_text"
    by (simp add: re_sub_def re_sub_newlines_id [OF 2])
  show ?thesis
    by (simp add: normalize_whitespace_def 1 4 3)
qed


lemma tokenize_long_text:
  "period_tokenize long_text = [replicate 1001 (CHR ''a'') @ ''.'', ''then it goes on and on.'']"
proof -
  have r: "period_tokenize_from [] '' then it goes on and on.'' = [''then it goes on and on.'']"
    by code_simp
  have "period_tokenize long_text
        = period_tokenize_from (replicate 1001 (CHR ''a'')) ''. then it goes on and on.''"
    unfolding period_tokenize_def long_text_def
    by (subst period_tokenize_from_prefix) (simp_all add: isspace_def)
  also have "\<dots> = rev (CHR ''.'' # replicate 1001 (CHR ''a''))
                   # period_tokenize_from [] '' then it goes on and on.''"
    by (rule period_tokenize_from_period) simp_all
  finally show ?thesis unfolding r by simp
qed

lemma kept_long_sentence:
  "kept (replicate 1001 (CHR ''a'') @ ''.'') = Some (replicate 1000 (CHR ''a'') @ ''...'')"
proof -
  have s: "strip (replicate 1001 (CHR ''a'') @ ''.'') = replicate 1001 (CHR ''a'') @ ''.''"
    by (rule strip_id) (simp_all add: isspace_def hd_append)
  have s2: "strip (replicate 1000 (CHR ''a'') @ ''...'') = replicate 1000 (CHR ''a'') @ ''...''"
    by (rule strip_id) (simp_all add: isspace_def hd_append)
  have r: "replicate 1000 (CHR ''a'') = CHR ''a'' # replicate 999 (CHR ''a'')"
    using replicate_Suc [of 999 "CHR ''a''"] by simp
  have "strip (replicate 1000 (CHR ''a'') @ ''...'') = CHR ''a'' # (replicate 999 (CHR ''a'') @ ''...'')"
    by (subst s2) (simp add: r)
  then have n: "\<not> is_noise (replicate 1000 (CHR ''a'') @ ''...'')"
    by (rule is_noise_letter_a)
  show ?thesis
    using n by (simp add: kept_def s len_def min_sentence_length_def max_sentence_length_def)
qed

lemma kept_short_sentence: "kept ''then it goes on and on.'' = Some ''then it goes on and on.''"
  by code_simp

lemma filter_long_text:
  "filter_content period_tokenize long_text
     = replicate 1000 (CHR ''a'') @ ''... then it goes on and on.''"
  by (simp add: filter_content_def normalize_long_text tokenize_long_text filter_sentences_kept
      kept_long_sentence kept_short_sentence del: filter_sentences.simps(2))


lemma normalize_filtered_long_text:
  "normalize_whitespace (replicate 1000 (CHR ''a'') @ ''... then it goes on and on.'')
     = replicate 1000 (CHR ''a'') @ ''... then it goes on and on.''"
proof -
  let ?out = "replicate 1000 (CHR ''a'') @ ''... then it goes on and on.''"
  have r: "re_sub_from (Plus Space) '' '' (Some (CHR ''a'')) ''... then it goes on and on.''
           = ''... then it goes on and on.''"
    by code_simp
  have 1: "re_sub (Plus Space) '' '' ?out = ?out"
    unfolding re_sub_def
    by (subst re_sub_spaces_prefix) (simp_all add: isspace_def r)
  have 2: "newline \<notin> set ?out" by simp
  have 3: "strip ?out = ?out"
    by (rule strip_id) (simp_all add: isspace_def hd_append)
  have 4: "re_sub (Plus (Chr newline)) [newline, newline] ?out = ?out"
    by (simp add: re_sub_def re_sub_newlines_id [OF 2])
  show ?thesis
    by (simp add: normalize_whitespace_def 1 4 3)
qed

lemma tokenize_filtered_long_text:
  "period_tokenize (replicate 1000 (CHR ''a'') @ ''... then it goes on and on.'')
     = [replicate 1000 (CHR ''a'') @ ''... then it goes on and on.'']"
proof -
  have "period_tokenize (replicate 1000 (CHR ''a'') @ ''... then it goes on and on.'')
        = period_tokenize_from (replicate 1000 (CHR ''a'')) ''... then it goes on and on.''"
    unfolding period_tokenize_def
    by (subst period_tokenize_from_prefix) (simp_all add: isspace_def)
  then show ?thesis by (simp only: period_tokenize_from_ellipsis rev_replicate)
qed

lemma kept_filtered_long_text:
  "kept (replicate 1000 (CHR ''a'') @ ''... then it goes on and on.'')
     = Some (replicate 1000 (CHR ''a'') @ ''...'')"
proof -
  let ?out = "replicate 1000 (CHR ''a'') @ ''... then it goes on and on.''"
  have s: "strip ?out = ?out"
    by (rule strip_id) (simp_all add: isspace_def hd_append)
  have s2: "strip (replicate 1000 (CHR ''a'') @ ''...'') = replicate 1000 (CHR ''a'') @ ''...''"
    by (rule strip_id) (simp_all add: isspace_def hd_append)
  have r: "replicate 1000 (CHR ''a'') = CHR ''a'' # replicate 999 (CHR ''a'')"
    using replicate_Suc [of 999 "CHR ''a''"] by simp
  have "strip (replicate 1000 (CHR ''a'') @ ''...'') = CHR ''a'' # (replicate 999 (CHR ''a'') @ ''...'')"
    by (subst s2) (simp add: r)
  then have n: "\<not> is_noise (replicate 1000 (CHR ''a'') @ ''...'')"
    by (rule is_noise_letter_a)
  show ?thesis
    using n by (simp add: kept_def s len_def min_sentence_length_def max_sentence_length_def)
qed

lemma filter_filtered_long_text:
  "filter_content period_tokenize (replicate 1000 (CHR ''a'') @ ''... then it goes on and on.'')
     = replicate 1000 (CHR ''a'') @ ''...''"
  by (simp add: filter_content_def normalize_filtered_long_text tokenize_filtered_long_text
      filter_sentences_kept kept_filtered_long_text del: filter_sentences.simps(2))

theorem filter_content_not_idempotent:
  "filter_content period_tokenize (filter_content period_tokenize long_text)
     \<noteq> filter_content period_tokenize long_text"
proof -
  have "length (filter_content period_tokenize (filter_content period_tokenize long_text)) = 1003"
    by (simp add: filter_long_text filter_filtered_long_text)
  moreover have "length (filter_content period_tokenize long_text) = 1027"
    by (simp add: filter_long_text)
  ultimately show ?thesis by auto
qed

lemma stable_text_filtered:
  "filter_content period_tokenize stable_text
     = ''Lamps give light. They stand on desks and hang from ceilings.''"
  by code_simp

theorem filter_content_idempotent_if_stable_witness:
  "period_tokenize (normalize_whitespace (filter_content period_tokenize stable_text))
     = filter_sentences (period_tokenize (normalize_whitespace stable_text))
   \<and> filter_content period_tokenize (filter_content period_tokenize stable_text)
       = ''Lamps give light. They stand on desks and hang from ceilings.''"
proof -
  have h: "period_tokenize (normalize_whitespace (filter_content period_tokenize stable_text))
     = filter_sentences (period_tokenize (normalize_whitespace stable_text))"
    by code_simp
  show ?thesis
    using filter_content_idempotent_if_stable [where tokenize = period_tokenize and t = stable_text, OF h]
      h stable_text_filtered
    by simp
qed


section \<open>DatasetAnalyzer: the sufficiency report\<close>

lemma py_min_eq_min: "py_min a b = min a b"
  by (auto simp: py_min_def min_def)

lemma analyze_dataset_stats:
  assumes "samples \<noteq> []"
  shows "stats (analyze_dataset samples) =
     \<lparr>sample_count = len samples,
      total_chars = (\<Sum>s\<leftarrow>samples. len (dict_get s ''input'' '''') + len (dict_get s ''output'' '''')),
      avg_sample_length =
        truediv (\<Sum>s\<leftarrow>samples. len (dict_get s ''input'' '''') + len (dict_get s ''output'' ''''))
          (len samples),
      sufficiency_score =
        score_of (\<Sum>s\<leftarrow>samples. len (dict_get s ''input'' '''') + len (dict_get s ''output'' ''''))
          (len samples)\<rparr>"
  using assms
  by (simp add: analyze_dataset_def Let_def len_def score_of_def py_min_eq_min
      min_dataset_size_def optimal_samples_def)

lemma analyze_dataset_is_sufficient:
  "samples \<noteq> [] \<Longrightarrow>
   is_sufficient (analyze_dataset samples) =
     (1000 \<le> total_chars (stats (analyze_dataset samples)) \<and>
      10 \<le> sample_count (stats (analyze_dataset samples)))"
  by (simp add: analyze_dataset_def Let_def min_dataset_size_def min_samples_def)

lemma total_chars_nonneg:
  fixes samples :: "sample list"
  shows "0 \<le> (\<Sum>s\<leftarrow>samples. len (dict_get s ''input'' '''') + len (dict_get s ''output'' ''''))"
  by (induction samples) (simp_all add: len_def)

lemma score_part_nonneg: "0 \<le> t \<Longrightarrow> 0 < d \<Longrightarrow> 0 \<le> float_mul (truediv t d) 50"
  unfolding float_mul_def truediv_def
  by (intro round_binary64_nonneg mult_nonneg_nonneg divide_nonneg_nonneg) simp_all

lemma score_part_mono:
  "0 \<le> t \<Longrightarrow> t \<le> t' \<Longrightarrow> 0 < d \<Longrightarrow> float_mul (truediv t d) 50 \<le> float_mul (truediv t' d) 50"
  unfolding float_mul_def truediv_def
  by (intro round_binary64_mono mult_right_mono mult_nonneg_nonneg round_binary64_nonneg
      divide_right_mono divide_nonneg_nonneg) simp_all

lemma score_of_mono:
  assumes "0 \<le> t" "t \<le> t'" "0 \<le> n" "n \<le> n'"
  shows "score_of t n \<le> score_of t' n'"
proof -
  have a: "float_mul (truediv t 1000) 50 \<le> float_mul (truediv t' 1000) 50"
    using assms by (intro score_part_mono) simp_all
  have b: "float_mul (truediv n 100) 50 \<le> float_mul (truediv n' 100) 50"
    using assms by (intro score_part_mono) simp_all
  have a0: "0 \<le> float_mul (truediv t 1000) 50" using assms by (intro score_part_nonneg) simp_all
  have b0: "0 \<le> float_mul (truediv n 100) 50" using assms by (intro score_part_nonneg) simp_all
  show ?thesis
    unfolding score_of_def float_add_def
    using a b a0 b0 by (intro round_binary64_mono) (auto simp: min_def)
qed

lemma score_of_bounds:
  assumes "0 \<le> t" "0 \<le> n"
  shows "0 \<le> score_of t n \<and> score_of t n \<le> 150"
proof -
  have a0: "0 \<le> float_mul (truediv t 1000) 50" using assms by (intro score_part_nonneg) simp_all
  have b0: "0 \<le> float_mul (truediv n 100) 50" using assms by (intro score_part_nonneg) simp_all
  have "score_of t n \<le> round_binary64 150"
    unfolding score_of_def float_add_def
    using a0 b0 by (intro round_binary64_mono) (auto simp: min_def)
  moreover have "0 \<le> score_of t n"
    unfolding score_of_def float_add_def
    using a0 b0 by (intro round_binary64_nonneg) (auto simp: min_def)
  ultimately show ?thesis by (simp add: round_binary64_150)
qed

text \<open>
  C6. \<open>analyze_dataset\<close> is a function of the sample list alone. On the empty list it
  returns \<open>is_sufficient = False\<close>, the message "Dataset is empty" and four zero
  statistics. On a non-empty list \<open>total_chars\<close> is the sum of
  \<open>len(input) + len(output)\<close> over the samples, \<open>avg_sample_length\<close> is
  \<open>total_chars / sample_count\<close>, \<open>sufficiency_score\<close> is
  \<open>min(100, total_chars / 1000 * 50) + min(50, sample_count / 100 * 50)\<close>, and
  \<open>is_sufficient\<close> is \<open>total_chars \<ge> 1000 and sample_count \<ge> 10\<close>; the arithmetic
  is Python's (true division, float product and sum).
\<close>

theorem analyze_dataset_report:
  "analyze_dataset [] =
     \<lparr>is_sufficient = False, message = ''Dataset is empty'',
      stats = \<lparr>sample_count = 0, total_chars = 0, avg_sample_length = 0, sufficiency_score = 0\<rparr>\<rparr>
   \<and> (samples \<noteq> [] \<longrightarrow>
        (let r = analyze_dataset samples;
             n = len samples;
             t = (\<Sum>s\<leftarrow>samples. len (dict_get s ''input'' '''') + len (dict_get s ''output'' ''''));
             size_score = min 100 (float_mul (truediv t 1000) 50);
             count_score = min 50 (float_mul (truediv n 100) 50)
         in sample_count (stats r) = n
          \<and> total_chars (stats r) = t
          \<and> avg_sample_length (stats r) = truediv t n
          \<and> sufficiency_score (stats r) = float_add size_score count_score
          \<and> is_sufficient r = (t \<ge> 1000 \<and> n \<ge> 10)))"
proof (intro conjI impI)
  show "analyze_dataset [] =
     \<lparr>is_sufficient = False, message = ''Dataset is empty'',
      stats = \<lparr>sample_count = 0, total_chars = 0, avg_sample_length = 0, sufficiency_score = 0\<rparr>\<rparr>"
    by (simp add: analyze_dataset_def)
next
  assume ne: "samples \<noteq> []"
  show "let r = analyze_dataset samples;
            n = len samples;
            t = (\<Sum>s\<leftarrow>samples. len (dict_get s ''input'' '''') + len (dict_get s ''output'' ''''));
            size_score = min 100 (float_mul (truediv t 1000) 50);
            count_score = min 50 (float_mul (truediv n 100) 50)
        in sample_count (stats r) = n
         \<and> total_chars (stats r) = t
         \<and> avg_sample_length (stats r) = truediv t n
         \<and> sufficiency_score (stats r) = float_add size_score count_score
         \<and> is_sufficient r = (t \<ge> 1000 \<and> n \<ge> 10)"
    using analyze_dataset_is_sufficient [OF ne]
    by (simp add: Let_def analyze_dataset_stats [OF ne] score_of_def)
qed

theorem analyze_dataset_report_witness:
  "[[(''input'', ''Question 1''), (''output'', ''Answer'')], [(''input'', ''Why?'')]] \<noteq> []
   \<and> stats (analyze_dataset [[(''input'', ''Question 1''), (''output'', ''Answer'')], [(''input'', ''Why?'')]])
       = \<lparr>sample_count = 2, total_chars = 20, avg_sample_length = 10, sufficiency_score = 2\<rparr>
   \<and> \<not> is_sufficient (analyze_dataset [[(''input'', ''Question 1''), (''output'', ''Answer'')], [(''input'', ''Why?'')]])"
proof -
  have a: "truediv 20 2 = 10" by code_simp
  have b: "float_add (min 100 (float_mul (truediv 20 1000) 50)) (min 50 (float_mul (truediv 2 100) 50)) = 2"
    by code_simp
  show ?thesis
    using analyze_dataset_report [of "[[(''input'', ''Question 1''), (''output'', ''Answer'')], [(''input'', ''Why?'')]]"]
    by (simp add: Let_def len_def dict_get_def a b)
qed

text \<open>
  C7. The sufficiency score is monotone: of two non-empty sample lists with the same
  \<open>total_chars\<close>, the one with more samples scores at least as much, and of two with
  the same \<open>sample_count\<close>, the one with more characters scores at least as much.
\<close>

theorem sufficiency_score_monotone:
  assumes "s1 \<noteq> []" and "s2 \<noteq> []"
  shows "(total_chars (stats (analyze_dataset s1)) = total_chars (stats (analyze_dataset s2))
          \<and> sample_count (stats (analyze_dataset s1)) \<le> sample_count (stats (analyze_dataset s2))
          \<longrightarrow> sufficiency_score (stats (analyze_dataset s1))
               \<le> sufficiency_score (stats (analyze_dataset s2)))
       \<and> (sample_count (stats (analyze_dataset s1)) = sample_count (stats (analyze_dataset s2))
          \<and> total_chars (stats (analyze_dataset s1)) \<le> total_chars (stats (analyze_dataset s2))
          \<longrightarrow> sufficiency_score (stats (analyze_dataset s1))
               \<le> sufficiency_score (stats (analyze_dataset s2)))"
  using assms total_chars_nonneg [of s1]
  by (auto simp: analyze_dataset_stats len_def intro!: score_of_mono)

theorem sufficiency_score_monotone_witness:
  "[[(''input'', ''abcd'')]] \<noteq> []
   \<and> [[(''input'', ''ab'')], [(''output'', ''cd'')]] \<noteq> []
   \<and> [[(''input'', ''abcdef'')]] \<noteq> []
   \<and> sufficiency_score (stats (analyze_dataset [[(''input'', ''abcd'')]]))
       \<le> sufficiency_score (stats (analyze_dataset [[(''input'', ''ab'')], [(''output'', ''cd'')]]))
   \<and> sufficiency_score (stats (analyze_dataset [[(''input'', ''abcd'')]]))
       \<le> sufficiency_score (stats (analyze_dataset [[(''input'', ''abcdef'')]]))"
proof -
  have t1: "total_chars (stats (analyze_dataset [[(''input'', ''abcd'')]])) = 4"
    and n1: "sample_count (stats (analyze_dataset [[(''input'', ''abcd'')]])) = 1"
    by (simp_all add: analyze_dataset_stats len_def dict_get_def)
  have t2: "total_chars (stats (analyze_dataset [[(''input'', ''ab'')], [(''output'', ''cd'')]])) = 4"
    and n2: "sample_count (stats (analyze_dataset [[(''input'', ''ab'')], [(''output'', ''cd'')]])) = 2"
    by (simp_all add: analyze_dataset_stats len_def dict_get_def)
  have t3: "total_chars (stats (analyze_dataset [[(''input'', ''abcdef'')]])) = 6"
    and n3: "sample_count (stats (analyze_dataset [[(''input'', ''abcdef'')]])) = 1"
    by (simp_all add: analyze_dataset_stats len_def dict_get_def)
  show ?thesis
    using sufficiency_score_monotone [of "[[(''input'', ''abcd'')]]" "[[(''input'', ''ab'')], [(''output'', ''cd'')]]"]
      sufficiency_score_monotone [of "[[(''input'', ''abcd'')]]" "[[(''input'', ''abcdef'')]]"]
    by (simp add: t1 t2 t3 n1 n2 n3)
qed

text \<open>
  C8. For every sample list the sufficiency score lies between 0 and 150, and some list
  (100 samples with 2000 characters in all) scores more than 100.
\<close>

theorem sufficiency_score_range:
  "0 \<le> sufficiency_score (stats (analyze_dataset samples))
   \<and> sufficiency_score (stats (analyze_dataset samples)) \<le> 150
   \<and> (\<exists>s. 100 < sufficiency_score (stats (analyze_dataset s)))"
proof (intro conjI)
  show "0 \<le> sufficiency_score (stats (analyze_dataset samples))"
  proof (cases "samples = []")
    case False
    then show ?thesis
      using score_of_bounds [OF total_chars_nonneg [of samples], of "len samples"]
      by (simp add: analyze_dataset_stats len_def)
  qed (simp add: analyze_dataset_def)
  show "sufficiency_score (stats (analyze_dataset samples)) \<le> 150"
  proof (cases "samples = []")
    case False
    then show ?thesis
      using score_of_bounds [OF total_chars_nonneg [of samples], of "len samples"]
      by (simp add: analyze_dataset_stats len_def)
  qed (simp add: analyze_dataset_def)
  have "sufficiency_score (stats (analyze_dataset
          (replicate 100 [(''input'', ''0123456789''), (''output'', ''0123456789'')]))) = 150"
    by code_simp
  then show "\<exists>s. 100 < sufficiency_score (stats (analyze_dataset s))"
    by (intro exI [of _ "replicate 100 [(''input'', ''0123456789''), (''output'', ''0123456789'')]"]) simp
qed

section \<open>DatasetStructurer: the samples of a one-paragraph text\<close>

text \<open>
  C2 as stated fails: the knowledge sample needs a paragraph of more than 200 characters
  (\<^verbatim>\<open>len(paragraph) > 200\<close>), so a paragraph of exactly 200 characters with a cue yields
  one sample; and \<open>generate_question\<close> returns \<open>None\<close> when the first sentence has
  fewer than three words.
  C2 amended. A text that is one paragraph and not blank, longer than 200 characters,
  with an informative cue and a first sentence of at least three words, yields exactly two
  samples, the summary sample and the knowledge sample. A text that is one paragraph and
  not blank, of 100 to 200 characters, yields exactly one sample, the summary sample
  (with a cue or without).
\<close>

theorem one_paragraph_samples:
  assumes "re_split paragraph_break t = [t]" and "strip t \<noteq> []"
  shows "(200 < length t \<and> is_informative t \<and> tokenize t = first_sentence # rest
            \<and> 3 \<le> length (split first_sentence) \<longrightarrow>
          create_samples_from_text tokenize t metadata =
            [[(''input'', ''Summarize the following text from ''
                 @ dict_get metadata ''filename'' ''the document'' @ '':'' @ [newline, newline] @ t),
              (''output'', generate_summary tokenize t)],
             [(''input'', ''What can you tell me about ''
                 @ join '' '' (take 2 (drop 1 (split first_sentence))) @ ''?''),
              (''output'', generate_answer t (''What can you tell me about ''
                 @ join '' '' (take 2 (drop 1 (split first_sentence))) @ ''?''))]])
       \<and> (100 \<le> length t \<and> length t \<le> 200 \<longrightarrow>
          create_samples_from_text tokenize t metadata =
            [[(''input'', ''Summarize the following text from ''
                 @ dict_get metadata ''filename'' ''the document'' @ '':'' @ [newline, newline] @ t),
              (''output'', generate_summary tokenize t)]])"
  using assms
  by (auto simp: create_samples_from_text_def paragraph_samples_def generate_question_def
      len_def Let_def)

theorem one_paragraph_samples_counterexample:
  "length lamp_text_200 = 200
   \<and> is_informative lamp_text_200
   \<and> strip lamp_text_200 = lamp_text_200
   \<and> re_split paragraph_break lamp_text_200 = [lamp_text_200]
   \<and> length (create_samples_from_text period_tokenize lamp_text_200 []) = 1"
proof -
  have c: "length lamp_text_200 = 200" by (simp add: lamp_text_200_def)
  have i: "is_informative lamp_text_200" by code_simp
  have s: "strip lamp_text_200 = lamp_text_200" by code_simp
  have p: "re_split paragraph_break lamp_text_200 = [lamp_text_200]" by code_simp
  have n: "length (create_samples_from_text period_tokenize lamp_text_200 []) = 1" by code_simp
  show ?thesis using c i s p n by simp
qed

lemma short_first_sentence_example:
  "length (''Go. '' @ lamp_text) = 210 \<and> is_informative (''Go. '' @ lamp_text)
   \<and> length (create_samples_from_text period_tokenize (''Go. '' @ lamp_text) []) = 1"
proof -
  have c: "length (''Go. '' @ lamp_text) = 210" by (simp add: lamp_text_def)
  have i: "is_informative (''Go. '' @ lamp_text)" by code_simp
  have n: "length (create_samples_from_text period_tokenize (''Go. '' @ lamp_text) []) = 1" by code_simp
  show ?thesis using c i n by simp
qed

theorem one_paragraph_samples_witness:
  "re_split paragraph_break lamp_text = [lamp_text] \<and> strip lamp_text \<noteq> []
   \<and> 200 < length lamp_text \<and> is_informative lamp_text
   \<and> period_tokenize lamp_text =
       [''A lamp is defined as a device that gives light.'',
        ''It stands on a desk or hangs from the ceiling, and it needs a source of power.'',
        ''Most lamps today use LEDs, which use far less energy than the bulbs of old.'', ''Go.'']
   \<and> 3 \<le> length (split ''A lamp is defined as a device that gives light.'')
   \<and> map (\<lambda>s. dict_get s ''input'' []) (create_samples_from_text period_tokenize lamp_text [])
       = [''Summarize the following text from the document:'' @ [newline, newline] @ lamp_text,
          ''What can you tell me about lamp is?'']
   \<and> re_split paragraph_break plain_text = [plain_text] \<and> strip plain_text \<noteq> []
   \<and> 100 \<le> length plain_text \<and> length plain_text \<le> 200
   \<and> map (\<lambda>s. dict_get s ''input'' []) (create_samples_from_text period_tokenize plain_text [])
       = [''Summarize the following text from the document:'' @ [newline, newline] @ plain_text]"
proof -
  have p1: "re_split paragraph_break lamp_text = [lamp_text]" by code_simp
  have s1: "strip lamp_text \<noteq> []" by code_simp
  have l1: "length lamp_text = 206" by (simp add: lamp_text_def)
  have i1: "is_informative lamp_text" by code_simp
  have t1: "period_tokenize lamp_text =
       [''A lamp is defined as a device that gives light.'',
        ''It stands on a desk or hangs from the ceiling, and it needs a source of power.'',
        ''Most lamps today use LEDs, which use far less energy than the bulbs of old.'', ''Go.'']"
    by code_simp
  have w1: "split ''A lamp is defined as a device that gives light.''
       = [''A'', ''lamp'', ''is'', ''defined'', ''as'', ''a'', ''device'', ''that'', ''gives'', ''light.'']"
    by code_simp
  have p2: "re_split paragraph_break plain_text = [plain_text]" by code_simp
  have s2: "strip plain_text \<noteq> []" by code_simp
  have l2: "length plain_text = 135" by (simp add: plain_text_def)
  show ?thesis
    using one_paragraph_samples [where t = lamp_text and tokenize = period_tokenize
        and metadata = "[]"
        and first_sentence = "''A lamp is defined as a device that gives light.''"
        and rest = "[''It stands on a desk or hangs from the ceiling, and it needs a source of power.'',
          ''Most lamps today use LEDs, which use far less energy than the bulbs of old.'', ''Go.'']",
        OF p1 s1]
      one_paragraph_samples [where t = plain_text and tokenize = period_tokenize
        and metadata = "[]" and first_sentence = "[]" and rest = "[]", OF p2 s2]
    by (simp add: p1 s1 l1 i1 t1 w1 p2 s2 l2 dict_get_def)
qed


section \<open>DatasetStructurer: identifiers and persisted artifacts\<close>

lemma makedirs_dom: "dom (makedirs fs d) = insert d (dom fs)"
  by (auto simp: makedirs_def split: option.splits)

lemma write_file_dom: "dom (write_file fs d name content) = dom fs"
  by (auto simp: write_file_def split: option.splits)

lemma write_file_get:
  "d \<in> dom fs \<Longrightarrow> (case write_file fs d name content d of None \<Rightarrow> None | Some files \<Rightarrow> files name) = Some content"
  by (auto simp: write_file_def split: option.splits)

text \<open>
  C10. After every successful \<open>create_dataset\<close> the metadata file of the dataset holds
  \<open>created_at = "2025-03-16T01:40:00Z"\<close>, whatever the time of the call is.
\<close>

theorem created_at_is_constant:
  assumes "create_dataset env now fs doc_ids dataset_name = ((True, msg, Some dataset_id), fs')"
  shows "\<exists>metadata. get_dataset_metadata fs' dataset_id = Some (MetadataFile metadata)
           \<and> map_of metadata ''created_at'' = Some (PyStr ''2025-03-16T01:40:00Z'')"
proof -
  let ?d = "dataset_id_for now doc_ids dataset_name"
  let ?samples = "concat (map (document_samples env) doc_ids)"
  let ?m = "[(''dataset_id'', PyStr ?d),
             (''document_ids'', PyStrList doc_ids),
             (''sample_count'', PyInt (len ?samples)),
             (''created_at'', PyStr ''2025-03-16T01:40:00Z''),
             (''is_sufficient'', PyBool (is_sufficient (analyze_dataset ?samples))),
             (''sufficiency_score'', PyNum (sufficiency_score (stats (analyze_dataset ?samples))))]"
  let ?fs2 = "write_file (write_file (makedirs fs ?d) ?d ''dataset.json'' (SamplesFile ?samples))
                ?d ''analysis.json'' (AnalysisFile (analyze_dataset ?samples))"
  from assms have ne: "doc_ids \<noteq> []"
    by (auto simp: create_dataset_def split: if_splits)
  from assms ne have s: "?samples \<noteq> []"
    by (auto simp: create_dataset_def Let_def simp del: concat_eq_Nil_conv split: if_splits)
  from assms ne s have d: "dataset_id = ?d"
    and fs': "fs' = write_file ?fs2 ?d ''metadata.json'' (MetadataFile ?m)"
    by (auto simp add: create_dataset_def Let_def simp del: concat_eq_Nil_conv)
  have "?d \<in> dom ?fs2" by (simp add: write_file_dom makedirs_dom)
  then have "get_dataset_metadata fs' dataset_id = Some (MetadataFile ?m)"
    unfolding d fs' get_dataset_metadata_def by (rule write_file_get)
  moreover have "map_of ?m ''created_at'' = Some (PyStr ''2025-03-16T01:40:00Z'')" by simp
  ultimately show ?thesis by blast
qed

lemma ex_fst: "fst (create_dataset example_env 1700000000 Map.empty [''lamp''] (Some ''demo''))
   = (True, ''Dataset created with 2 samples'', Some ''demo'')"
  by code_simp


theorem created_at_is_constant_witness:
  "fst (create_dataset example_env 1700000000 Map.empty [''lamp''] (Some ''demo''))
     = (True, ''Dataset created with 2 samples'', Some ''demo'')
   \<and> (\<exists>metadata.
         get_dataset_metadata (snd (create_dataset example_env 1700000000 Map.empty [''lamp''] (Some ''demo''))) ''demo''
           = Some (MetadataFile metadata)
         \<and> map_of metadata ''created_at'' = Some (PyStr ''2025-03-16T01:40:00Z''))"
proof -
  have "create_dataset example_env 1700000000 Map.empty [''lamp''] (Some ''demo'')
        = ((True, ''Dataset created with 2 samples'', Some ''demo''),
           snd (create_dataset example_env 1700000000 Map.empty [''lamp''] (Some ''demo'')))"
    using ex_fst by (metis prod.collapse)
  from created_at_is_constant [OF this] show ?thesis using ex_fst by simp
qed

lemma md5_digest_length: "length (md5_digest msg) = 16"
  by (simp add: md5_digest_def Let_def split: prod.splits)

lemma hex_byte_props: "length (hex_byte b) = 2 \<and> set (hex_byte b) \<subseteq> set ''0123456789abcdef''"
proof -
  have "unat b < 256" using unsigned_less [of b, where ?'a = nat] by simp
  then have "unat b div 16 < 16" "unat b mod 16 < 16" by simp_all
  then have "''0123456789abcdef'' ! (unat b div 16) \<in> set ''0123456789abcdef''"
    "''0123456789abcdef'' ! (unat b mod 16) \<in> set ''0123456789abcdef''"
    by (intro nth_mem; simp)+
  then show ?thesis by (simp add: hex_byte_def)
qed

lemma concat_hex_length: "length (concat (map hex_byte bs)) = 2 * length bs"
  by (induction bs) (simp_all add: hex_byte_props)

lemma concat_hex_set: "set (concat (map hex_byte bs)) \<subseteq> set ''0123456789abcdef''"
  using hex_byte_props by (induction bs) auto

lemma md5_hexdigest_props:
  "length (md5_hexdigest msg) = 32 \<and> set (md5_hexdigest msg) \<subseteq> set ''0123456789abcdef''"
  using concat_hex_set [of "md5_digest msg"]
  by (simp add: md5_hexdigest_def concat_hex_length md5_digest_length)

lemma create_dataset_no_samples:
  assumes "doc_ids \<noteq> []" and "concat (map (document_samples env) doc_ids) = []"
  shows "create_dataset env now fs doc_ids dataset_name =
     ((False, ''No valid samples could be created from the documents'', None),
      makedirs fs (dataset_id_for now doc_ids dataset_name))"
  using assms by (simp add: create_dataset_def Let_def del: concat_eq_Nil_conv)

lemma create_dataset_success_id:
  assumes "create_dataset env now fs doc_ids dataset_name = ((True, msg, Some d), fs')"
  shows "d = dataset_id_for now doc_ids dataset_name"
  using assms by (auto simp: create_dataset_def Let_def split: if_splits)

text \<open>
  C5 as stated fails: without a name the id is \<open>dataset_\<close> followed by the result of
  \<open>generate_id\<close>, not that result alone, and an empty name is not used verbatim.
  C5 amended. A non-empty name is the dataset id verbatim. With no name, or with an empty
  name, the id is \<open>dataset_ds_<unixtime>_<digest>\<close>, where the digest is the first 8
  hexadecimal digits of the MD5 of the sorted document ids joined by \<open>_\<close>. A successful
  \<open>create_dataset\<close> returns this id.
\<close>

theorem dataset_id_for_spec:
  "(name \<noteq> [] \<longrightarrow> dataset_id_for now doc_ids (Some name) = name)
   \<and> dataset_id_for now doc_ids (Some []) = dataset_id_for now doc_ids None
   \<and> (\<exists>digest. dataset_id_for now doc_ids None = ''dataset_ds_'' @ str_int now @ ''_'' @ digest
         \<and> digest = take 8 (md5_hexdigest (utf8_encode (join ''_'' (sort doc_ids))))
         \<and> length digest = 8 \<and> set digest \<subseteq> set ''0123456789abcdef'')
   \<and> (create_dataset env now fs doc_ids dataset_name = ((True, msg, Some d), fs')
        \<longrightarrow> d = dataset_id_for now doc_ids dataset_name)"
proof (intro conjI impI)
  let ?h = "md5_hexdigest (utf8_encode (join ''_'' (sort doc_ids)))"
  have "set (take 8 ?h) \<subseteq> set ?h" by (rule set_take_subset)
  then have "set (take 8 ?h) \<subseteq> set ''0123456789abcdef''"
    using md5_hexdigest_props [of "utf8_encode (join ''_'' (sort doc_ids))"] by blast
  moreover have "length (take 8 ?h) = 8" by (simp add: md5_hexdigest_props)
  ultimately show "\<exists>digest. dataset_id_for now doc_ids None = ''dataset_ds_'' @ str_int now @ ''_'' @ digest
         \<and> digest = take 8 ?h \<and> length digest = 8 \<and> set digest \<subseteq> set ''0123456789abcdef''"
    by (simp add: dataset_id_for_def generate_id_def Let_def)
next
  assume "create_dataset env now fs doc_ids dataset_name = ((True, msg, Some d), fs')"
  then show "d = dataset_id_for now doc_ids dataset_name" by (rule create_dataset_success_id)
qed (simp_all add: dataset_id_for_def)

theorem dataset_id_format_counterexample:
  "dataset_id_for 1700000000 [''doc2'', ''doc1''] None = ''dataset_ds_1700000000_baad170d''
   \<and> dataset_id_for 1700000000 [''doc2'', ''doc1''] None \<noteq> generate_id 1700000000 [''doc2'', ''doc1'']
   \<and> generate_id 1700000000 [''doc2'', ''doc1''] = ''ds_1700000000_baad170d''
   \<and> dataset_id_for 1700000000 [''doc2'', ''doc1''] (Some '''') \<noteq> ''''"
proof -
  have s1: "str_int 1700000000 = ''1700000000''"
    by (simp add: str_int_def str_nat.simps)
  have h1: "take 8 (md5_hexdigest (utf8_encode ''doc1_doc2'')) = ''baad170d''"
    by code_simp
  have so: "sort [''doc2'', ''doc1''] = [''doc1'', ''doc2'']"
    by code_simp
  show ?thesis
    by (simp add: dataset_id_for_def generate_id_def s1 h1 so)
qed

lemma no_samples_example:
  "concat (map (document_samples example_env) [''blank'', ''image'', ''nodoc'']) = []"
  by code_simp

text \<open>
  C1 fails on the code. \<open>create_dataset\<close> makes the dataset directory before it reads
  the documents, so a call that ends with "No valid samples" leaves a new, empty directory
  behind, and \<open>list_datasets\<close> shows it. Here: three documents without usable text,
  the name \<open>demo\<close>, an empty base directory.
\<close>

theorem create_dataset_failure_leaves_directory:
  "fst (create_dataset example_env 1700000000 Map.empty [''blank'', ''image'', ''nodoc''] (Some ''demo''))
     = (False, ''No valid samples could be created from the documents'', None)
   \<and> list_datasets Map.empty = {}
   \<and> list_datasets (snd (create_dataset example_env 1700000000 Map.empty
                           [''blank'', ''image'', ''nodoc''] (Some ''demo''))) = {''demo''}"
  by (simp add: create_dataset_no_samples [OF _ no_samples_example] list_datasets_def makedirs_dom
      dataset_id_for_def)

theorem dataset_id_for_spec_witness:
  "''demo'' \<noteq> [] \<and> dataset_id_for 1700000000 [''lamp''] (Some ''demo'') = ''demo''
   \<and> fst (create_dataset example_env 1700000000 Map.empty [''lamp''] (Some ''demo''))
       = (True, ''Dataset created with 2 samples'', Some ''demo'')"
proof -
  have e: "create_dataset example_env 1700000000 Map.empty [''lamp''] (Some ''demo'')
        = ((True, ''Dataset created with 2 samples'', Some ''demo''),
           snd (create_dataset example_env 1700000000 Map.empty [''lamp''] (Some ''demo'')))"
    using ex_fst by (metis prod.collapse)
  show ?thesis
    using dataset_id_for_spec [of "''demo''" 1700000000 "[''lamp'']" example_env Map.empty "Some ''demo''"
        "''Dataset created with 2 samples''" "''demo''"
        "snd (create_dataset example_env 1700000000 Map.empty [''lamp''] (Some ''demo''))"] e ex_fst
    by simp
qed

end
